theory Spec2Isabelle
  imports Main "HOL-Library.Word" "HOL-Library.Multiset"
begin

unbundle bit_operations_syntax

section \<open>JavaScript values used by \<open>src/index.js\<close>\<close>

text \<open>
  A JavaScript string is modelled as a \<^typ>\<open>string\<close>; a value that may be \<open>null\<close> or
  \<open>undefined\<close> is a \<^typ>\<open>string option\<close>. The operations used by the source
  (\<open>includes\<close>, \<open>split\<close>, \<open>join\<close>, \<open>slice\<close>, \<open>+\<close>) act on the sequence of
  characters and do not depend on what a character is.
\<close>

text \<open>\<open>s.split(c)\<close> for a one-character separator: the result is never empty.\<close>

fun split_js :: "char \<Rightarrow> string \<Rightarrow> string list" where
  "split_js c [] = [[]]"
| "split_js c (x # xs) =
     (if x = c then [] # split_js c xs
      else (x # hd (split_js c xs)) # tl (split_js c xs))"

text \<open>\<open>parts.join(sep)\<close>.\<close>

fun join_js :: "string \<Rightarrow> string list \<Rightarrow> string" where
  "join_js sep [] = []"
| "join_js sep [g] = g"
| "join_js sep (g # h # gs) = g @ sep @ join_js sep (h # gs)"

text \<open>Truthiness of a string-or-null value: \<open>null\<close>, \<open>undefined\<close> and \<open>""\<close> are falsy.\<close>

fun truthy :: "string option \<Rightarrow> bool" where
  "truthy None = False"
| "truthy (Some s) = (s \<noteq> [])"

text \<open>\<open>x || d\<close> for a string default \<open>d\<close>, and \<open>x || null\<close>.\<close>

fun or_default :: "string option \<Rightarrow> string \<Rightarrow> string" where
  "or_default None d = d"
| "or_default (Some s) d = (if s = [] then d else s)"

fun or_null :: "string option \<Rightarrow> string option" where
  "or_null None = None"
| "or_null (Some s) = (if s = [] then None else Some s)"

text \<open>Decimal rendering of a number inside a template literal (\<open>`$${i++}`\<close>).\<close>

definition digit_char :: "nat \<Rightarrow> char" where
  "digit_char d = ''0123456789'' ! d"

function show_nat :: "nat \<Rightarrow> string" where
  "show_nat n = (if n < 10 then [digit_char n] else show_nat (n div 10) @ [digit_char (n mod 10)])"
  by pat_completeness auto
termination
  by (relation "measure id") auto

declare show_nat.simps [simp del]

section \<open>SHA-256, as \<open>crypto.createHash("sha256")\<close> computes it\<close>

text \<open>
  The digest is computed by Node's \<open>crypto\<close> module, which is not part of the repository;
  it is written out here after FIPS 180-4 so that the \<open>hash\<close> policy can be evaluated.
  \<open>update(str)\<close> hashes the UTF-8 bytes of the string: a \<^typ>\<open>string\<close> is read as that
  byte sequence.
\<close>

type_synonym w32 = "32 word"

definition rotr :: "nat \<Rightarrow> w32 \<Rightarrow> w32" where
  "rotr n x = word_rotr n x"

definition Ch :: "w32 \<Rightarrow> w32 \<Rightarrow> w32 \<Rightarrow> w32" where
  "Ch x y z = (x AND y) XOR (NOT x AND z)"

definition Maj :: "w32 \<Rightarrow> w32 \<Rightarrow> w32 \<Rightarrow> w32" where
  "Maj x y z = (x AND y) XOR (x AND z) XOR (y AND z)"

definition bsig0 :: "w32 \<Rightarrow> w32" where
  "bsig0 x = rotr 2 x XOR rotr 13 x XOR rotr 22 x"

definition bsig1 :: "w32 \<Rightarrow> w32" where
  "bsig1 x = rotr 6 x XOR rotr 11 x XOR rotr 25 x"

definition ssig0 :: "w32 \<Rightarrow> w32" where
  "ssig0 x = rotr 7 x XOR rotr 18 x XOR drop_bit 3 x"

definition ssig1 :: "w32 \<Rightarrow> w32" where
  "ssig1 x = rotr 17 x XOR rotr 19 x XOR drop_bit 10 x"

text \<open>
  The round constants and the initial hash value are the ones of the standard, written
  in decimal: the first is \<open>0x428a2f98\<close> and \<open>0x6a09e667\<close> respectively.
\<close>

definition sha256_K :: "w32 list" where
  "sha256_K =
    [1116352408, 1899447441, 3049323471, 3921009573, 961987163, 1508970993,
     2453635748, 2870763221, 3624381080, 310598401, 607225278, 1426881987,
     1925078388, 2162078206, 2614888103, 3248222580, 3835390401, 4022224774,
     264347078, 604807628, 770255983, 1249150122, 1555081692, 1996064986,
     2554220882, 2821834349, 2952996808, 3210313671, 3336571891, 3584528711,
     113926993, 338241895, 666307205, 773529912, 1294757372, 1396182291,
     1695183700, 1986661051, 2177026350, 2456956037, 2730485921, 2820302411,
     3259730800, 3345764771, 3516065817, 3600352804, 4094571909, 275423344,
     430227734, 506948616, 659060556, 883997877, 958139571, 1322822218,
     1537002063, 1747873779, 1955562222, 2024104815, 2227730452, 2361852424,
     2428436474, 2756734187, 3204031479, 3329325298]"

definition sha256_H0 :: "w32 list" where
  "sha256_H0 =
    [1779033703, 3144134277, 1013904242, 2773480762, 1359893119, 2600822924,
     528734635, 1541459225]"

text \<open>Padding: a \<open>0x80\<close> byte, zero bytes up to 56 modulo 64, the bit length on 64 bits.\<close>

definition be64 :: "nat \<Rightarrow> 8 word list" where
  "be64 n = map (\<lambda>i. ucast (drop_bit (8 * (7 - i)) (of_nat n :: 64 word))) [0..<8]"

definition sha256_pad :: "8 word list \<Rightarrow> 8 word list" where
  "sha256_pad m =
     m @ [0x80] @ replicate ((64 - (length m + 9) mod 64) mod 64) 0 @ be64 (8 * length m)"

text \<open>Big-endian 32-bit words of a byte sequence (whole groups of four bytes).\<close>

fun be_words :: "8 word list \<Rightarrow> w32 list" where
  "be_words (a # b # c # d # rest) =
     (push_bit 24 (ucast a) OR push_bit 16 (ucast b) OR push_bit 8 (ucast c) OR ucast d)
       # be_words rest"
| "be_words _ = []"

text \<open>The message schedule: sixteen words of the block extended by \<open>k\<close> more.\<close>

fun extend_schedule :: "nat \<Rightarrow> w32 list \<Rightarrow> w32 list" where
  "extend_schedule 0 W = W"
| "extend_schedule (Suc k) W =
     (let t = length W
      in extend_schedule k
           (W @ [ssig1 (W ! (t - 2)) + W ! (t - 7) + ssig0 (W ! (t - 15)) + W ! (t - 16)]))"

text \<open>One round on the working variables \<open>a..h\<close>, held as a list of eight words.\<close>

fun sha256_round :: "w32 list \<Rightarrow> w32 \<times> w32 \<Rightarrow> w32 list" where
  "sha256_round [a, b, c, d, e, f, g, h] (k, w) =
     (let t1 = h + bsig1 e + Ch e f g + k + w;
          t2 = bsig0 a + Maj a b c
      in [t1 + t2, a, b, c, d + t1, e, f, g])"
| "sha256_round v _ = v"

definition sha256_block :: "w32 list \<Rightarrow> w32 list \<Rightarrow> w32 list" where
  "sha256_block H M =
     map2 (+) H (foldl sha256_round H (zip sha256_K (extend_schedule 48 M)))"

fun sha256_blocks :: "nat \<Rightarrow> w32 list \<Rightarrow> w32 list \<Rightarrow> w32 list" where
  "sha256_blocks 0 H ws = H"
| "sha256_blocks (Suc n) H ws = sha256_blocks n (sha256_block H (take 16 ws)) (drop 16 ws)"

definition sha256 :: "8 word list \<Rightarrow> w32 list" where
  "sha256 m =
     (let ws = be_words (sha256_pad m)
      in sha256_blocks (length ws div 16) sha256_H0 ws)"

text \<open>\<open>digest("hex")\<close>: eight lower-case hexadecimal digits for each word.\<close>

definition hex_digit :: "nat \<Rightarrow> char" where
  "hex_digit d = ''0123456789abcdef'' ! d"

definition hex_word :: "w32 \<Rightarrow> string" where
  "hex_word w = map (\<lambda>i. hex_digit (unat (drop_bit (4 * (7 - i)) w AND 0xF))) [0..<8]"

definition hex_chars :: "char set" where
  "hex_chars = set ''0123456789abcdef''"

definition utf8_bytes :: "string \<Rightarrow> 8 word list" where
  "utf8_bytes s = map (\<lambda>c. of_nat (of_char c)) s"

definition sha256_hex :: "string \<Rightarrow> string" where
  "sha256_hex s = concat (map hex_word (sha256 (utf8_bytes s)))"

section \<open>The anonymizer (\<open>makeAnonymizer\<close>)\<close>

text \<open>
  \<open>makeAnonymizer(mode, hashSalt)\<close> returns a closure on the address; the model takes the
  address as a third argument. The three branches are tested in the order of the source:
  \<open>"none"\<close>, \<open>"hash"\<close>, and every other mode is the default \<open>cidr\<close>.
\<close>

definition anonymize_none :: "string option \<Rightarrow> string option" where
  "anonymize_none ip = or_null ip"

definition anonymize_hash :: "string \<Rightarrow> string option \<Rightarrow> string option" where
  "anonymize_hash hashSalt ip =
     (if truthy ip then Some (take 16 (sha256_hex (hashSalt @ the ip))) else None)"

definition anonymize_cidr :: "string option \<Rightarrow> string option" where
  "anonymize_cidr ip =
     (if \<not> truthy ip then None
      else let s = the ip in
        if CHR '':'' \<in> set s then Some (join_js '':'' (take 3 (split_js CHR '':'' s)) @ ''::'')
        else let p = split_js CHR ''.'' s in
          if length p \<noteq> 4 then Some s
          else Some (join_js ''.'' (p[3 := ''0''])))"

definition makeAnonymizer :: "string \<Rightarrow> string \<Rightarrow> string option \<Rightarrow> string option" where
  "makeAnonymizer mode hashSalt =
     (if mode = ''none'' then anonymize_none
      else if mode = ''hash'' then anonymize_hash hashSalt
      else anonymize_cidr)"

section \<open>Options of \<open>enableAnalytics\<close>\<close>

text \<open>
  The fields of \<open>opts\<close> that the modelled code reads. A field that is absent is
  \<open>None\<close>. \<open>batch\<close>, \<open>intervalMs\<close> and \<open>port\<close> are taken to be integers when given;
  \<open>Number(x || d)\<close> then yields \<open>d\<close> for an absent or zero \<open>x\<close> and \<open>x\<close> otherwise.
\<close>

record dashboard_options =
  bind :: "string option"
  port :: "int option"

record options =
  table :: "string option"
  batch :: "int option"
  intervalMs :: "int option"
  anonymizeIp :: "string option"
  hashSalt :: "string option"
  databaseUrl :: "string option"
  dashboard :: "dashboard_options option"

fun number_or :: "int option \<Rightarrow> int \<Rightarrow> int" where
  "number_or None d = d"
| "number_or (Some n) d = (if n = 0 then d else n)"

definition table_name :: "options \<Rightarrow> string" where
  "table_name opts = or_default (table opts) ''web_analytics_events''"

definition batchSize :: "options \<Rightarrow> int" where
  "batchSize opts = number_or (batch opts) 500"

definition timer_interval :: "options \<Rightarrow> int" where
  "timer_interval opts = number_or (intervalMs opts) 2000"

definition anonymizer :: "options \<Rightarrow> string option \<Rightarrow> string option" where
  "anonymizer opts =
     makeAnonymizer (or_default (anonymizeIp opts) ''cidr'') (or_default (hashSalt opts) [])"

section \<open>Event records\<close>

record meta =
  url :: "string option"
  ref :: "string option"
  hostname :: "string option"

text \<open>The field \<open>method\<close> of the source is written \<open>http_method\<close>.\<close>

record event =
  event_type :: string
  occurred_at :: string
  user_id :: "string option"
  route :: "string option"
  http_method :: string
  status :: int
  latency_ms :: int
  ip_cidr :: "string option"
  ip_full :: "string option"
  user_agent :: "string option"
  meta :: "meta option"

text \<open>
  What the \<open>finish\<close> handler of the middleware reads from the request, the response and
  the environment. \<open>ip\<close> is the constant of that name in the handler: a string, empty
  when neither the forwarding header nor \<open>req.ip\<close> gives an address.
\<close>

record request_info =
  sampled :: bool
  now_iso :: string
  req_user_id :: "string option"
  req_route :: "string option"
  req_method :: string
  res_status :: int
  latencyMs :: int
  ip :: string
  req_user_agent :: "string option"
  originalUrl :: "string option"
  referer :: "string option"
  env_hostname :: "string option"

text \<open>The object literal pushed on the queue (lines 144 to 160).\<close>

definition make_event :: "options \<Rightarrow> request_info \<Rightarrow> event" where
  "make_event opts ri =
     \<lparr> event_type = ''request'',
       occurred_at = now_iso ri,
       user_id = req_user_id ri,
       route = req_route ri,
       http_method = req_method ri,
       status = res_status ri,
       latency_ms = latencyMs ri,
       ip_cidr = anonymizer opts (Some (ip ri)),
       ip_full = (if anonymizeIp opts = Some ''none'' then or_null (Some (ip ri)) else None),
       user_agent = req_user_agent ri,
       meta = Some \<lparr> url = originalUrl ri,
                     ref = or_null (referer ri),
                     hostname = or_null (env_hostname ri) \<rparr> \<rparr>"

section \<open>The batch insert built by \<open>drain\<close>\<close>

datatype param = PText string | PInt int | PNull | PJson meta

fun text_param :: "string option \<Rightarrow> param" where
  "text_param None = PNull"
| "text_param (Some s) = PText s"

text \<open>The eleven values pushed on \<open>params\<close> for one record, \<open>e.meta || null\<close> last.\<close>

definition row_params :: "event \<Rightarrow> param list" where
  "row_params e =
     [PText (event_type e), PText (occurred_at e), text_param (user_id e), text_param (route e),
      PText (http_method e), PInt (status e), PInt (latency_ms e), text_param (ip_cidr e),
      text_param (ip_full e), text_param (user_agent e),
      (case meta e of None \<Rightarrow> PNull | Some m \<Rightarrow> PJson m)]"

text \<open>The row tuple \<open>($i,$i+1,...,$i+10)\<close> pushed on \<open>values\<close>.\<close>

definition row_placeholders :: "nat \<Rightarrow> string" where
  "row_placeholders i =
     ''('' @ join_js '','' (map (\<lambda>k. ''$'' @ show_nat k) [i..<i + 11]) @ '')''"

text \<open>The \<open>for\<close> loop over \<open>items\<close>, on the triple \<open>(values, params, i)\<close>.\<close>

fun insert_loop ::
    "event list \<Rightarrow> string list \<times> param list \<times> nat \<Rightarrow> string list \<times> param list \<times> nat" where
  "insert_loop [] acc = acc"
| "insert_loop (e # es) (vals, ps, i) =
     insert_loop es (vals @ [row_placeholders i], ps @ row_params e, i + 11)"

text \<open>The statement text; the line breaks of the template literal are written as spaces.\<close>

definition insert_sql :: "string \<Rightarrow> string list \<Rightarrow> string" where
  "insert_sql tbl vals =
     ''INSERT INTO '' @ tbl @
     '' (event_type, occurred_at, user_id, route, method, status, latency_ms, ip_cidr, ip_full, user_agent, meta)'' @
     '' VALUES '' @ join_js '','' vals"

section \<open>The queue and the background inserter\<close>

text \<open>
  One call of \<open>pool.query(sql, params)\<close> made by \<open>drain\<close>: the records spliced off the
  queue, the statement and its parameters.
\<close>

record insert_call =
  items :: "event list"
  sql :: string
  params :: "param list"

text \<open>
  The closure state of \<open>enableAnalytics\<close>: \<open>queue\<close> and \<open>draining\<close> are the variables
  of the source. \<open>pending\<close> holds the insert calls whose promise has not settled yet,
  \<open>issued\<close> every insert call made so far, \<open>errlog\<close> the lines written with
  \<open>console.error\<close>, \<open>timer\<close> the interval of the \<open>setInterval\<close> timer while it is
  armed, and \<open>pool_ended\<close> whether \<open>pool.end()\<close> has been called.
\<close>

record state =
  queue :: "event list"
  draining :: bool
  pending :: "insert_call list"
  issued :: "insert_call list"
  errlog :: "string list"
  timer :: "int option"
  pool_ended :: bool

text \<open>Lines 94 to 119: the loop from empty arrays and \<open>i = 1\<close>, then the statement.\<close>

definition build_insert :: "string \<Rightarrow> event list \<Rightarrow> insert_call" where
  "build_insert tbl its =
     (let (vals, ps, i) = insert_loop its ([], [], 1)
      in \<lparr> items = its, sql = insert_sql tbl vals, params = ps \<rparr>)"

text \<open>
  \<open>queue.splice(0, deleteCount)\<close> removes \<open>min(max(deleteCount, 0), length)\<close> elements
  from the head.
\<close>

definition splice_count :: "int \<Rightarrow> nat \<Rightarrow> nat" where
  "splice_count deleteCount len = nat (min (max deleteCount 0) (int len))"

text \<open>
  \<open>drain\<close> up to its \<open>await\<close>: the guard, the splice, the statement, the call of
  \<open>pool.query\<close>. Nothing else runs in between, since the code is synchronous there.
\<close>

definition drain :: "options \<Rightarrow> state \<Rightarrow> state" where
  "drain opts st =
     (if draining st \<or> queue st = [] then st
      else
        let n = splice_count (batchSize opts) (length (queue st));
            call = build_insert (table_name opts) (take n (queue st))
        in st \<lparr> queue := drop n (queue st), draining := True,
                pending := pending st @ [call], issued := issued st @ [call] \<rparr>)"

text \<open>
  \<open>drain\<close> after its \<open>await\<close>: the promise of the oldest pending insert settles, with
  \<open>Inl msg\<close> when it rejects (\<open>err.message\<close>) and \<open>Inr ()\<close> when it resolves. The
  \<open>catch\<close> block logs and the \<open>finally\<close> block clears the flag.
\<close>

definition settle :: "state \<Rightarrow> string + unit \<Rightarrow> state" where
  "settle st r =
     (case pending st of
        [] \<Rightarrow> st
      | call # rest \<Rightarrow>
          (case r of
             Inl msg \<Rightarrow>
               st \<lparr> pending := rest,
                    errlog := errlog st @ [''[analytics] batch insert failed: '' @ msg],
                    draining := False \<rparr>
           | Inr u \<Rightarrow> st \<lparr> pending := rest, draining := False \<rparr>))"

text \<open>
  The \<open>finish\<close> handler: sample, push, and drain when the queue reached the batch size.
  A request on a path matched by \<open>redactPaths\<close> never registers the handler, and the
  body of the handler is inside \<open>try\<close>/\<open>catch\<close>, so it throws nothing to the host.
\<close>

definition on_finish :: "options \<Rightarrow> state \<Rightarrow> request_info \<Rightarrow> state" where
  "on_finish opts st ri =
     (if \<not> sampled ri then st
      else
        let st' = st \<lparr> queue := queue st @ [make_event opts ri] \<rparr>
        in if int (length (queue st')) \<ge> batchSize opts then drain opts st' else st')"

text \<open>A firing of the interval timer calls \<open>drain\<close>.\<close>

definition tick :: "options \<Rightarrow> state \<Rightarrow> state" where
  "tick opts st = (case timer st of None \<Rightarrow> st | Some ms \<Rightarrow> drain opts st)"

text \<open>The returned \<open>stop\<close>: \<open>await pool.end()\<close> and nothing else.\<close>

definition stop :: "state \<Rightarrow> state" where
  "stop st = st \<lparr> pool_ended := True \<rparr>"

text \<open>What can happen to a running instance, and a run over a sequence of such inputs.\<close>

datatype input = Finish request_info | Tick | Settled "string + unit" | Stop

fun step :: "options \<Rightarrow> state \<Rightarrow> input \<Rightarrow> state" where
  "step opts st (Finish ri) = on_finish opts st ri"
| "step opts st Tick = tick opts st"
| "step opts st (Settled r) = settle st r"
| "step opts st Stop = stop st"

definition run :: "options \<Rightarrow> state \<Rightarrow> input list \<Rightarrow> state" where
  "run opts st ins = foldl (step opts) st ins"

text \<open>The records that a sequence of inputs pushes on the queue, in order.\<close>

fun pushed :: "options \<Rightarrow> input list \<Rightarrow> event list" where
  "pushed opts [] = []"
| "pushed opts (Finish ri # ins) =
     (if sampled ri then make_event opts ri # pushed opts ins else pushed opts ins)"
| "pushed opts (_ # ins) = pushed opts ins"

text \<open>All the records handed to the store so far, batch after batch.\<close>

definition sent :: "state \<Rightarrow> event list" where
  "sent st = concat (map items (issued st))"

section \<open>\<open>enableAnalytics\<close>\<close>

text \<open>
  The errors thrown out of \<open>enableAnalytics\<close>: the one of the guard, and the
  \<open>RangeError\<close> of \<open>srv.listen(port, bind)\<close> for a port outside 0 to 65535, with the
  port.
\<close>

datatype error = Error string | RangeError int

datatype log_arg = LText string | LNumber int

datatype effect =
    NewPool string
  | EnsureTable string
  | SetInterval int
  | UseMiddleware
  | DashboardListen string int
  | ConsoleLog string "log_arg list"

definition initial_state :: "options \<Rightarrow> state" where
  "initial_state opts =
     \<lparr> queue = [], draining = False, pending = [], issued = [], errlog = [],
       timer = Some (timer_interval opts), pool_ended = False \<rparr>"

text \<open>The call of \<open>console.log\<close> at the end, with its format and its three arguments.\<close>

definition enabled_log :: "options \<Rightarrow> effect" where
  "enabled_log opts =
     ConsoleLog ''[analytics] enabled (table=%s, batch=%s, intervalMs=%s)''
       [LText (table_name opts), LNumber (batchSize opts), LNumber (timer_interval opts)]"

text \<open>
  The body of \<open>enableAnalytics\<close>, as the list of its effects in the order of the source
  and either the error thrown or the state of the new instance. The constants computed
  before the guard (lines 63 to 73) have no effect; the routes and the basic
  authentication of the dashboard are not part of the list. \<open>app\<close> is taken to be an
  Express application and \<open>express\<close> to be installed, so that \<open>app.use\<close> and
  \<open>require("express")\<close> return; \<open>srv.listen\<close> throws for a port out of range, after the
  pool, the timer and the middleware exist and before the final log line.
\<close>

definition enableAnalytics :: "options \<Rightarrow> effect list \<times> (error + state)" where
  "enableAnalytics opts =
     (if \<not> truthy (databaseUrl opts)
      then ([], Inl (Error ''enableAnalytics: databaseUrl is required''))
      else
        let started = [NewPool (the (databaseUrl opts)),
                       EnsureTable (table_name opts),
                       SetInterval (timer_interval opts),
                       UseMiddleware]
        in case dashboard opts of
             None \<Rightarrow> (started @ [enabled_log opts], Inr (initial_state opts))
           | Some d \<Rightarrow>
               let p = number_or (port d) 4319
               in if p < 0 \<or> 65535 < p then (started, Inl (RangeError p))
                  else (started @ [DashboardListen (or_default (bind d) ''127.0.0.1'') p,
                                   enabled_log opts],
                        Inr (initial_state opts)))"

section \<open>Dashboard queries\<close>

text \<open>
  A handler calls \<open>pool.query\<close> once and answers with the rows, or with status 500 and
  the message when the call throws. \<open>pool.query\<close> is a parameter: it returns \<open>Inl msg\<close>
  for a failure and \<open>Inr rows\<close> otherwise.
\<close>

datatype 'r response = Json 'r | Status500 string

definition respond :: "string + 'r \<Rightarrow> 'r response" where
  "respond q = (case q of Inl msg \<Rightarrow> Status500 msg | Inr rows \<Rightarrow> Json rows)"

text \<open>The aggregate \<open>COUNT\<close> of all rows, cast to \<open>int\<close>, as both statements write it.\<close>

definition count_star :: string where
  "count_star = ''COUNT('' @ ''*'' @ '')::int''"

subsection \<open>\<open>/api/traffic\<close>\<close>

record traffic_query =
  window :: "string option"
  bucket :: "string option"

definition traffic_sql :: "string \<Rightarrow> string" where
  "traffic_sql tbl =
     ''SELECT date_trunc($1, occurred_at) AS t, '' @ count_star @ '' AS c FROM '' @ tbl @
     '' WHERE occurred_at > now() - ($2)::interval GROUP BY 1 ORDER BY 1''"

definition traffic_params :: "traffic_query \<Rightarrow> param list" where
  "traffic_params q =
     (let w = or_default (window q) ''24 hours'';
          b = or_default (bucket q) ''hour''
      in [PText b, PText w])"

definition traffic_handler ::
    "(string \<Rightarrow> param list \<Rightarrow> string + 'r) \<Rightarrow> options \<Rightarrow> traffic_query \<Rightarrow> 'r response" where
  "traffic_handler pool_query opts q =
     respond (pool_query (traffic_sql (table_name opts)) (traffic_params q))"

text \<open>A store that answers every statement with the parameters it was given.\<close>

definition echo_store :: "string \<Rightarrow> param list \<Rightarrow> string + param list" where
  "echo_store text ps = Inr ps"

text \<open>A store that rejects every statement with the message \<open>msg\<close>.\<close>

definition failing_store :: "string \<Rightarrow> string \<Rightarrow> param list \<Rightarrow> string + param list" where
  "failing_store msg text ps = Inl msg"

subsection \<open>\<open>/api/top-routes\<close>\<close>



subsection \<open>Counting queries and their answers\<close>













section \<open>The invariant of the flush flag\<close>

text \<open>
  The flag is set exactly while an insert is awaiting its result, there is at most one
  such insert, and the timer is armed.
\<close>

definition flush_inv :: "state \<Rightarrow> bool" where
  "flush_inv st \<longleftrightarrow> (draining st \<longleftrightarrow> pending st \<noteq> []) \<and> length (pending st) \<le> 1 \<and> timer st \<noteq> None"

section \<open>Concrete inputs\<close>

text \<open>A request and an options object, used to evaluate the model on examples.\<close>

definition sample_request :: "string \<Rightarrow> request_info" where
  "sample_request addr =
     \<lparr> sampled = True, now_iso = ''2025-01-01T00:00:00.000Z'', req_user_id = None,
       req_route = Some ''/'', req_method = ''GET'', res_status = 200, latencyMs = 3,
       ip = addr, req_user_agent = None, originalUrl = Some ''/'', referer = None,
       env_hostname = None \<rparr>"

definition sample_options :: "string option \<Rightarrow> int option \<Rightarrow> string option \<Rightarrow> options" where
  "sample_options mode b u =
     \<lparr> table = None, batch = b, intervalMs = None, anonymizeIp = mode, hashSalt = None,
       databaseUrl = u, dashboard = None \<rparr>"

text \<open>A fresh instance whose queue holds one record for each of the given addresses.\<close>

definition sample_state :: "options \<Rightarrow> string list \<Rightarrow> state" where
  "sample_state opts addrs =
     (initial_state opts) \<lparr> queue := map (\<lambda>a. make_event opts (sample_request a)) addrs \<rparr>"



text \<open>Options with a database and a dashboard on the given port.\<close>

definition sample_dashboard :: "int \<Rightarrow> options" where
  "sample_dashboard p =
     (sample_options None None (Some ''postgres://db''))
       \<lparr> dashboard := Some \<lparr> bind = None, port = Some p \<rparr> \<rparr>"

section \<open>Splitting and joining\<close>

lemma split_js_not_Nil: "split_js c s \<noteq> []"
  by (induction s) auto

lemma split_js_no_sep: "c \<notin> set s \<Longrightarrow> split_js c s = [s]"
  by (induction s) auto

lemma split_js_append: "c \<notin> set a \<Longrightarrow> split_js c (a @ c # b) = a # split_js c b"
  by (induction a) auto

lemma length_split_js: "length (split_js c s) = Suc (length (filter (\<lambda>x. x = c) s))"
  by (induction s) (auto simp: split_js_not_Nil)

lemma cidr_ipv4:
  assumes "CHR '':'' \<notin> set (a @ b @ c @ d)" and "CHR ''.'' \<notin> set (a @ b @ c @ d)"
  shows "anonymize_cidr (Some (a @ ''.'' @ b @ ''.'' @ c @ ''.'' @ d)) = Some (a @ ''.'' @ b @ ''.'' @ c @ ''.0'')"
proof -
  have sp: "split_js CHR ''.'' (a @ ''.'' @ b @ ''.'' @ c @ ''.'' @ d) = [a, b, c, d]"
    using assms by (simp add: split_js_append split_js_no_sep)
  show ?thesis using assms sp by (simp add: anonymize_cidr_def Let_def numeral_3_eq_3)
qed

lemma cidr_ipv6_long:
  assumes "CHR '':'' \<notin> set (g1 @ g2 @ g3)"
  shows "anonymize_cidr (Some (g1 @ '':'' @ g2 @ '':'' @ g3 @ '':'' @ rest)) = Some (g1 @ '':'' @ g2 @ '':'' @ g3 @ ''::'')"
proof -
  have sp: "split_js CHR '':'' (g1 @ '':'' @ g2 @ '':'' @ g3 @ '':'' @ rest) = g1 # g2 # g3 # split_js CHR '':'' rest"
    using assms by (simp add: split_js_append)
  show ?thesis using sp by (simp add: anonymize_cidr_def Let_def numeral_3_eq_3)
qed

lemma cidr_ipv6_three:
  assumes "CHR '':'' \<notin> set (g1 @ g2 @ g3)"
  shows "anonymize_cidr (Some (g1 @ '':'' @ g2 @ '':'' @ g3)) = Some (g1 @ '':'' @ g2 @ '':'' @ g3 @ ''::'')"
proof -
  have sp: "split_js CHR '':'' (g1 @ '':'' @ g2 @ '':'' @ g3) = [g1, g2, g3]"
    using assms by (simp add: split_js_append split_js_no_sep)
  show ?thesis using sp by (simp add: anonymize_cidr_def Let_def numeral_3_eq_3)
qed

lemma cidr_ipv6_two:
  assumes "CHR '':'' \<notin> set (g1 @ g2)"
  shows "anonymize_cidr (Some (g1 @ '':'' @ g2)) = Some (g1 @ '':'' @ g2 @ ''::'')"
proof -
  have sp: "split_js CHR '':'' (g1 @ '':'' @ g2) = [g1, g2]"
    using assms by (simp add: split_js_append split_js_no_sep)
  show ?thesis using sp by (simp add: anonymize_cidr_def Let_def numeral_3_eq_3)
qed

lemma cidr_other:
  assumes "s \<noteq> []" "CHR '':'' \<notin> set s" "length (filter (\<lambda>x. x = CHR ''.'') s) \<noteq> 3"
  shows "anonymize_cidr (Some s) = Some s"
  using assms by (simp add: anonymize_cidr_def length_split_js Let_def)

lemma cidr_null: "anonymize_cidr None = None" "anonymize_cidr (Some []) = None"
  by (simp_all add: anonymize_cidr_def)

section \<open>Shape of the digest\<close>

text \<open>
  The digest of the standard's test message \<open>abc\<close>, and the digest of a salt followed
  by an address.
\<close>

lemma sha256_hex_abc:
  "sha256_hex ''abc'' = ''ba7816bf8f01cfea414140de5dae2223b00361a396177a9cb410ff61f20015ad''"
  by code_simp

lemma sha256_hex_example:
  "sha256_hex ''pepper203.0.113.9''
     = ''46962367a1308f4447bbe83a9907910efac5d436e67d96fa3521e7a7143af471''"
  by code_simp

lemma length_sha256_round: "length v = 8 \<Longrightarrow> length (sha256_round v kw) = 8"
proof -
  assume "length v = 8"
  then obtain a b c d e f g h where "v = [a, b, c, d, e, f, g, h]"
    by (auto simp: numeral_eq_Suc length_Suc_conv)
  then show ?thesis by (cases kw) (simp add: Let_def)
qed

lemma length_foldl_round: "length v = 8 \<Longrightarrow> length (foldl sha256_round v kws) = 8"
  by (induction kws arbitrary: v) (simp_all add: length_sha256_round)

lemma length_sha256_block: "length H = 8 \<Longrightarrow> length (sha256_block H M) = 8"
  by (simp add: sha256_block_def length_foldl_round)

lemma length_sha256_blocks: "length H = 8 \<Longrightarrow> length (sha256_blocks n H ws) = 8"
  by (induction n arbitrary: H ws) (simp_all add: length_sha256_block)

lemma length_sha256: "length (sha256 m) = 8"
  by (simp add: sha256_def Let_def length_sha256_blocks sha256_H0_def)

lemma length_hex_word: "length (hex_word w) = 8"
  by (simp add: hex_word_def)

lemma length_concat_hex: "length (concat (map hex_word ws)) = 8 * length ws"
  by (induction ws) (simp_all add: length_hex_word)

lemma length_sha256_hex: "length (sha256_hex s) = 64"
  by (simp add: sha256_hex_def length_concat_hex length_sha256)

lemma hex_digit_in: "d < 16 \<Longrightarrow> hex_digit d \<in> hex_chars"
  unfolding hex_digit_def hex_chars_def by (rule nth_mem) simp

lemma nibble_less: "unat ((x :: w32) AND 0xF) < 16"
proof -
  have "x AND 0xF \<le> 0xF" by (rule word_and_le1)
  then have "unat (x AND 0xF) \<le> unat (0xF :: w32)" by (simp add: word_le_nat_alt)
  then show ?thesis by simp
qed

lemma set_hex_word: "set (hex_word w) \<subseteq> hex_chars"
  unfolding hex_word_def set_map by (rule image_subsetI) (rule hex_digit_in [OF nibble_less])

lemma set_concat_hex: "set (concat (map hex_word ws)) \<subseteq> hex_chars"
  by (induction ws) (simp_all add: set_hex_word)

lemma set_sha256_hex: "set (sha256_hex s) \<subseteq> hex_chars"
  unfolding sha256_hex_def by (rule set_concat_hex)


section \<open>The insert statement and \<open>drain\<close>\<close>

lemma insert_loop_eq:
  "insert_loop es (vs, ps, i) =
     (vs @ map (\<lambda>k. row_placeholders (i + 11 * k)) [0..<length es],
      ps @ concat (map row_params es),
      i + 11 * length es)"
proof (induction es arbitrary: vs ps i)
  case Nil
  show ?case by simp
next
  case (Cons e es)
  have "map (\<lambda>k. row_placeholders (i + 11 * k)) [0..<Suc (length es)]
        = row_placeholders i # map (\<lambda>k. row_placeholders (i + 11 + 11 * k)) [0..<length es]"
    by (simp only: map_upt_Suc) (simp add: add.assoc)
  with Cons.IH [of "vs @ [row_placeholders i]" "ps @ row_params e" "i + 11"]
  show ?case by simp
qed

lemma length_row_params: "length (row_params e) = 11"
  by (simp add: row_params_def)

lemma length_concat_row_params: "length (concat (map row_params es)) = 11 * length es"
  by (induction es) (simp_all add: length_row_params)

lemma build_insert_eq:
  "build_insert tbl its =
     \<lparr> items = its,
       sql = insert_sql tbl (map (\<lambda>k. row_placeholders (1 + 11 * k)) [0..<length its]),
       params = concat (map row_params its) \<rparr>"
  by (simp add: build_insert_def insert_loop_eq)

lemma upt_eleven:
  "[i..<i + 11] = [i, i + 1, i + 2, i + 3, i + 4, i + 5, i + 6, i + 7, i + 8, i + 9, i + 10]"
proof -
  have e: "[0..<11] = [0, 1, 2, 3, 4, 5, 6, 7, 8, 9, 10 :: nat]"
    by code_simp
  have "[i..<i + 11] = [i..<11 + i]"
    by (simp only: add.commute)
  also have "\<dots> = map (\<lambda>k. k + i) [0..<11]"
    by (simp only: map_add_upt)
  finally show ?thesis by (simp add: e add.commute)
qed

lemma row_placeholders_explicit:
  "row_placeholders i =
     ''($'' @ show_nat i @ '',$'' @ show_nat (i + 1) @ '',$'' @ show_nat (i + 2)
     @ '',$'' @ show_nat (i + 3) @ '',$'' @ show_nat (i + 4) @ '',$'' @ show_nat (i + 5)
     @ '',$'' @ show_nat (i + 6) @ '',$'' @ show_nat (i + 7) @ '',$'' @ show_nat (i + 8)
     @ '',$'' @ show_nat (i + 9) @ '',$'' @ show_nat (i + 10) @ '')''"
  unfolding row_placeholders_def upt_eleven by simp

lemma row_placeholders_at:
  "row_placeholders (1 + 11 * k) =
     ''($'' @ show_nat (11 * k + 1) @ '',$'' @ show_nat (11 * k + 2)
     @ '',$'' @ show_nat (11 * k + 3) @ '',$'' @ show_nat (11 * k + 4)
     @ '',$'' @ show_nat (11 * k + 5) @ '',$'' @ show_nat (11 * k + 6)
     @ '',$'' @ show_nat (11 * k + 7) @ '',$'' @ show_nat (11 * k + 8)
     @ '',$'' @ show_nat (11 * k + 9) @ '',$'' @ show_nat (11 * k + 10)
     @ '',$'' @ show_nat (11 * k + 11) @ '')''"
proof -
  have e: "1 + 11 * k = 11 * k + 1" "11 * k + 1 + 1 = 11 * k + 2" "11 * k + 1 + 2 = 11 * k + 3"
    "11 * k + 1 + 3 = 11 * k + 4" "11 * k + 1 + 4 = 11 * k + 5" "11 * k + 1 + 5 = 11 * k + 6"
    "11 * k + 1 + 6 = 11 * k + 7" "11 * k + 1 + 7 = 11 * k + 8" "11 * k + 1 + 8 = 11 * k + 9"
    "11 * k + 1 + 9 = 11 * k + 10" "11 * k + 1 + 10 = 11 * k + 11"
    by simp_all
  show ?thesis unfolding row_placeholders_explicit e by (rule refl)
qed

lemma drain_busy: "draining st \<Longrightarrow> drain opts st = st"
  by (simp add: drain_def)

lemma drain_empty: "queue st = [] \<Longrightarrow> drain opts st = st"
  by (simp add: drain_def)

lemma drain_start:
  assumes "\<not> draining st" "queue st \<noteq> []"
  shows "drain opts st =
     st \<lparr> queue := drop (splice_count (batchSize opts) (length (queue st))) (queue st),
          draining := True,
          pending := pending st @ [build_insert (table_name opts) (take (splice_count (batchSize opts) (length (queue st))) (queue st))],
          issued := issued st @ [build_insert (table_name opts) (take (splice_count (batchSize opts) (length (queue st))) (queue st))] \<rparr>"
  using assms by (simp add: drain_def Let_def)

lemma items_build_insert: "items (build_insert tbl its) = its"
  by (simp add: build_insert_eq)

lemma drain_conserve: "sent (drain opts st) @ queue (drain opts st) = sent st @ queue st"
  by (cases "draining st \<or> queue st = []")
     (auto simp: drain_busy drain_empty drain_start sent_def items_build_insert)


lemma flush_inv_initial: "flush_inv (initial_state opts)"
  by (simp add: flush_inv_def initial_state_def)

lemma flush_inv_drain: "flush_inv st \<Longrightarrow> flush_inv (drain opts st)"
  by (cases "draining st \<or> queue st = []")
     (auto simp: drain_busy drain_empty drain_start flush_inv_def)

lemma flush_inv_settle: "flush_inv st \<Longrightarrow> flush_inv (settle st r)"
  by (auto simp: settle_def flush_inv_def split: list.splits sum.splits)

lemma flush_inv_on_finish: "flush_inv st \<Longrightarrow> flush_inv (on_finish opts st ri)"
proof -
  assume a: "flush_inv st"
  then have "flush_inv (st \<lparr> queue := queue st @ [make_event opts ri] \<rparr>)"
    by (simp add: flush_inv_def)
  with a show ?thesis
    by (simp add: on_finish_def Let_def flush_inv_drain)
qed

lemma flush_inv_step:
  assumes "flush_inv st"
  shows "flush_inv (step opts st i)"
proof (cases i)
  case (Finish ri)
  with assms show ?thesis by (simp add: flush_inv_on_finish)
next
  case Tick
  with assms show ?thesis by (simp add: tick_def flush_inv_drain split: option.splits)
next
  case (Settled r)
  with assms show ?thesis by (simp add: flush_inv_settle)
next
  case Stop
  with assms show ?thesis by (simp add: stop_def flush_inv_def)
qed

lemma flush_inv_run: "flush_inv st \<Longrightarrow> flush_inv (run opts st ins)"
  unfolding run_def by (induction ins arbitrary: st) (simp_all add: flush_inv_step)

lemma settle_conserve: "sent (settle st r) = sent st \<and> queue (settle st r) = queue st"
  by (simp add: settle_def sent_def split: list.splits sum.splits)

lemma on_finish_conserve:
  "sent (on_finish opts st ri) @ queue (on_finish opts st ri)
     = sent st @ queue st @ (if sampled ri then [make_event opts ri] else [])"
proof (cases "sampled ri")
  case False
  then show ?thesis by (simp add: on_finish_def)
next
  case True
  let ?st' = "st \<lparr> queue := queue st @ [make_event opts ri] \<rparr>"
  have "sent (drain opts ?st') @ queue (drain opts ?st') = sent ?st' @ queue ?st'"
    by (rule drain_conserve)
  moreover have "sent ?st' = sent st" by (simp add: sent_def)
  ultimately show ?thesis using True
    by (simp add: on_finish_def Let_def)
qed

lemma step_conserve:
  "sent (step opts st i) @ queue (step opts st i) = sent st @ queue st @ pushed opts [i]"
proof (cases i)
  case (Finish ri)
  then show ?thesis by (simp add: on_finish_conserve)
next
  case Tick
  then show ?thesis by (simp add: tick_def drain_conserve split: option.splits)
next
  case (Settled r)
  then show ?thesis by (simp add: settle_conserve)
next
  case Stop
  then show ?thesis by (simp add: stop_def sent_def)
qed

lemma pushed_Cons: "pushed opts (i # ins) = pushed opts [i] @ pushed opts ins"
  by (cases i) simp_all

lemma run_conserve:
  "sent (run opts st ins) @ queue (run opts st ins) = sent st @ queue st @ pushed opts ins"
proof (induction ins arbitrary: st)
  case Nil
  show ?case by (simp add: run_def)
next
  case (Cons i ins)
  have "run opts st (i # ins) = run opts (step opts st i) ins"
    by (simp add: run_def)
  then show ?case
    using Cons.IH [of "step opts st i"] step_conserve [of opts st i] pushed_Cons [of opts i ins]
    by simp
qed

section \<open>When the anonymizer yields null\<close>

lemma anonymize_cidr_None_iff: "anonymize_cidr (Some s) = None \<longleftrightarrow> s = []"
  by (simp add: anonymize_cidr_def Let_def)

lemma anonymize_hash_None_iff: "anonymize_hash salt (Some s) = None \<longleftrightarrow> s = []"
  by (simp add: anonymize_hash_def)


section \<open>The address fields of a captured record\<close>

text \<open>
  Claim C1, as stated, fails: under policy \<open>none\<close> the anonymizer is the identity on a
  non-empty address, so the record built for the address \<open>203.0.113.9\<close> carries it in
  \<open>ip_cidr\<close> and in \<open>ip_full\<close> at once.
\<close>

theorem ip_fields_none_counterexample:
  "ip_cidr (make_event (sample_options (Some ''none'') None (Some ''postgres://db''))
                       (sample_request ''203.0.113.9'')) = Some ''203.0.113.9''
   \<and> ip_full (make_event (sample_options (Some ''none'') None (Some ''postgres://db''))
                         (sample_request ''203.0.113.9'')) = Some ''203.0.113.9''"
  by (simp add: make_event_def sample_options_def sample_request_def anonymizer_def
        makeAnonymizer_def anonymize_none_def)

text \<open>
  Claim C1, amended: for every captured record, under policy \<open>none\<close> both \<open>ip_cidr\<close>
  and \<open>ip_full\<close> hold the unmodified address when it is non-empty, and both are null
  when it is empty; under every other policy \<open>ip_full\<close> is null and \<open>ip_cidr\<close> holds
  the output of the anonymizer, which is null exactly when the address is empty: the
  truncated digest under policy \<open>hash\<close>, the truncated address under any other policy.
\<close>

theorem ip_fields_by_policy:
  "(anonymizeIp opts = Some ''none'' \<longrightarrow>
      ip_cidr (make_event opts ri) = (if ip ri = [] then None else Some (ip ri))
      \<and> ip_full (make_event opts ri) = (if ip ri = [] then None else Some (ip ri)))
   \<and> (anonymizeIp opts \<noteq> Some ''none'' \<longrightarrow>
      ip_full (make_event opts ri) = None
      \<and> ip_cidr (make_event opts ri) = anonymizer opts (Some (ip ri))
      \<and> (ip_cidr (make_event opts ri) = None \<longleftrightarrow> ip ri = []))
   \<and> (anonymizeIp opts = Some ''hash'' \<and> ip ri \<noteq> [] \<longrightarrow>
      ip_cidr (make_event opts ri)
        = Some (take 16 (sha256_hex (or_default (hashSalt opts) [] @ ip ri))))
   \<and> (anonymizeIp opts \<noteq> Some ''none'' \<and> anonymizeIp opts \<noteq> Some ''hash'' \<longrightarrow>
      ip_cidr (make_event opts ri) = anonymize_cidr (Some (ip ri)))"
proof -
  have c: "ip_cidr (make_event opts ri) = anonymizer opts (Some (ip ri))"
    by (simp add: make_event_def)
  have 1: "anonymizeIp opts = Some ''none'' \<longrightarrow>
      ip_cidr (make_event opts ri) = (if ip ri = [] then None else Some (ip ri))
      \<and> ip_full (make_event opts ri) = (if ip ri = [] then None else Some (ip ri))"
    by (simp add: make_event_def anonymizer_def makeAnonymizer_def anonymize_none_def)
  have 2: "anonymizeIp opts \<noteq> Some ''none'' \<longrightarrow>
      ip_full (make_event opts ri) = None
      \<and> ip_cidr (make_event opts ri) = anonymizer opts (Some (ip ri))
      \<and> (ip_cidr (make_event opts ri) = None \<longleftrightarrow> ip ri = [])"
  proof
    assume n: "anonymizeIp opts \<noteq> Some ''none''"
    then have m: "or_default (anonymizeIp opts) ''cidr'' \<noteq> ''none''"
      by (cases "anonymizeIp opts") auto
    have "anonymizer opts (Some (ip ri)) = None \<longleftrightarrow> ip ri = []"
      using m by (simp add: anonymizer_def makeAnonymizer_def anonymize_cidr_None_iff
                    anonymize_hash_None_iff)
    with n c show "ip_full (make_event opts ri) = None
      \<and> ip_cidr (make_event opts ri) = anonymizer opts (Some (ip ri))
      \<and> (ip_cidr (make_event opts ri) = None \<longleftrightarrow> ip ri = [])"
      by (simp add: make_event_def)
  qed
  have 3: "anonymizeIp opts = Some ''hash'' \<and> ip ri \<noteq> [] \<longrightarrow>
      ip_cidr (make_event opts ri)
        = Some (take 16 (sha256_hex (or_default (hashSalt opts) [] @ ip ri)))"
    by (simp add: c anonymizer_def makeAnonymizer_def anonymize_hash_def)
  have 4: "anonymizeIp opts \<noteq> Some ''none'' \<and> anonymizeIp opts \<noteq> Some ''hash'' \<longrightarrow>
      ip_cidr (make_event opts ri) = anonymize_cidr (Some (ip ri))"
  proof
    assume a: "anonymizeIp opts \<noteq> Some ''none'' \<and> anonymizeIp opts \<noteq> Some ''hash''"
    then have "or_default (anonymizeIp opts) ''cidr'' \<noteq> ''none''"
      and "or_default (anonymizeIp opts) ''cidr'' \<noteq> ''hash''"
      by (cases "anonymizeIp opts"; auto)+
    then show "ip_cidr (make_event opts ri) = anonymize_cidr (Some (ip ri))"
      by (simp add: c anonymizer_def makeAnonymizer_def)
  qed
  from 1 2 3 4 show ?thesis by (intro conjI)
qed

theorem ip_fields_by_policy_witness:
  "anonymizeIp (sample_options (Some ''none'') None None) = Some ''none''
   \<and> ip_cidr (make_event (sample_options (Some ''none'') None None) (sample_request ''10.1.2.3''))
       = Some ''10.1.2.3''
   \<and> ip_full (make_event (sample_options (Some ''none'') None None) (sample_request ''10.1.2.3''))
       = Some ''10.1.2.3''
   \<and> anonymizeIp (sample_options (Some ''hash'') None None) = Some ''hash''
   \<and> anonymizeIp (sample_options (Some ''hash'') None None) \<noteq> Some ''none''
   \<and> ip (sample_request ''10.1.2.3'') \<noteq> []
   \<and> ip_full (make_event (sample_options (Some ''hash'') None None) (sample_request ''10.1.2.3''))
       = None
   \<and> ip_cidr (make_event (sample_options (Some ''hash'') None None) (sample_request ''10.1.2.3''))
       = Some (take 16 (sha256_hex ''10.1.2.3''))
   \<and> anonymizeIp (sample_options None None None) \<noteq> Some ''none''
   \<and> anonymizeIp (sample_options None None None) \<noteq> Some ''hash''
   \<and> ip_full (make_event (sample_options None None None) (sample_request ''10.1.2.3'')) = None
   \<and> ip_cidr (make_event (sample_options None None None) (sample_request ''10.1.2.3''))
       = Some ''10.1.2.0''"
proof -
  let ?n = "sample_options (Some ''none'') None None"
  let ?h = "sample_options (Some ''hash'') None None"
  let ?c = "sample_options None None None"
  let ?r = "sample_request ''10.1.2.3''"
  have a: "anonymizeIp ?n = Some ''none''"
    and b1: "anonymizeIp ?h = Some ''hash''" and b2: "anonymizeIp ?h \<noteq> Some ''none''"
    and c1: "anonymizeIp ?c \<noteq> Some ''none''" and c2: "anonymizeIp ?c \<noteq> Some ''hash''"
    and s: "hashSalt ?h = None"
    by (simp_all add: sample_options_def)
  have i: "ip ?r = ''10.1.2.3''" and i': "ip ?r \<noteq> []"
    by (simp_all add: sample_request_def)
  have v4: "anonymize_cidr (Some ''10.1.2.3'') = Some ''10.1.2.0''"
    using cidr_ipv4 [of "''10''" "''1''" "''2''" "''3''"] by simp
  note n = ip_fields_by_policy [of ?n ?r]
  note h = ip_fields_by_policy [of ?h ?r]
  note c = ip_fields_by_policy [of ?c ?r]
  have n1: "ip_cidr (make_event ?n ?r) = Some ''10.1.2.3''"
    and n2: "ip_full (make_event ?n ?r) = Some ''10.1.2.3''"
    using n a i by simp_all
  have h1: "ip_full (make_event ?h ?r) = None"
    using h b2 by blast
  have "ip_cidr (make_event ?h ?r) = Some (take 16 (sha256_hex (or_default (hashSalt ?h) [] @ ip ?r)))"
    using h b1 i' by blast
  then have h2: "ip_cidr (make_event ?h ?r) = Some (take 16 (sha256_hex ''10.1.2.3''))"
    by (simp add: s i)
  have k1: "ip_full (make_event ?c ?r) = None"
    using c c1 by blast
  have "ip_cidr (make_event ?c ?r) = anonymize_cidr (Some (ip ?r))"
    using c c1 c2 by blast
  then have k2: "ip_cidr (make_event ?c ?r) = Some ''10.1.2.0''"
    by (simp add: i v4)
  from a n1 n2 b1 b2 i' h1 h2 c1 c2 k1 k2 show ?thesis by (intro conjI)
qed

section \<open>Policy \<open>cidr\<close>\<close>

text \<open>
  Claim C7: under policy \<open>cidr\<close> the anonymizer yields null for a null or empty address;
  for an address of four dot-separated parts without a colon it yields the address with
  the last part replaced by \<open>0\<close>; for an address that contains a colon it yields the
  first three colon-separated groups joined by colons, followed by \<open>::\<close>; every other
  non-empty address (no colon, and not exactly three dots) is returned unchanged. The
  anonymizer is a function of the policy, the salt and the address alone, and it has a
  value on every input.
\<close>

theorem cidr_policy:
  "makeAnonymizer ''cidr'' salt None = None
   \<and> makeAnonymizer ''cidr'' salt (Some []) = None
   \<and> (CHR '':'' \<notin> set (a @ b @ c @ d) \<and> CHR ''.'' \<notin> set (a @ b @ c @ d) \<longrightarrow>
        makeAnonymizer ''cidr'' salt (Some (a @ ''.'' @ b @ ''.'' @ c @ ''.'' @ d))
          = Some (a @ ''.'' @ b @ ''.'' @ c @ ''.0''))
   \<and> (CHR '':'' \<in> set v \<longrightarrow>
        makeAnonymizer ''cidr'' salt (Some v)
          = Some (join_js '':'' (take 3 (split_js CHR '':'' v)) @ ''::''))
   \<and> (CHR '':'' \<notin> set (g1 @ g2 @ g3) \<longrightarrow>
        makeAnonymizer ''cidr'' salt (Some (g1 @ '':'' @ g2 @ '':'' @ g3 @ '':'' @ rest))
          = Some (g1 @ '':'' @ g2 @ '':'' @ g3 @ ''::''))
   \<and> (u \<noteq> [] \<and> CHR '':'' \<notin> set u \<and> length (filter (\<lambda>x. x = CHR ''.'') u) \<noteq> 3 \<longrightarrow>
        makeAnonymizer ''cidr'' salt (Some u) = Some u)"
proof -
  have m: "makeAnonymizer ''cidr'' salt = anonymize_cidr"
    by (simp add: makeAnonymizer_def)
  have six: "CHR '':'' \<in> set v \<Longrightarrow>
      anonymize_cidr (Some v) = Some (join_js '':'' (take 3 (split_js CHR '':'' v)) @ ''::'')"
    by (auto simp: anonymize_cidr_def Let_def)
  show ?thesis
    unfolding m
    using cidr_null cidr_ipv4 [of a b c d] six cidr_ipv6_long [of g1 g2 g3 rest] cidr_other [of u]
    by blast
qed

theorem cidr_policy_witness:
  "CHR '':'' \<notin> set (''192'' @ ''168'' @ ''1'' @ ''77'')
   \<and> CHR ''.'' \<notin> set (''192'' @ ''168'' @ ''1'' @ ''77'')
   \<and> makeAnonymizer ''cidr'' [] (Some ''192.168.1.77'') = Some ''192.168.1.0''
   \<and> CHR '':'' \<in> set ''fe80::1''
   \<and> makeAnonymizer ''cidr'' [] (Some ''fe80::1'') = Some ''fe80::1::''
   \<and> CHR '':'' \<notin> set (''2001'' @ ''db8'' @ ''85a3'')
   \<and> makeAnonymizer ''cidr'' [] (Some ''2001:db8:85a3:0:0:8a2e:370:7334'') = Some ''2001:db8:85a3::''
   \<and> ''localhost'' \<noteq> [] \<and> CHR '':'' \<notin> set ''localhost''
   \<and> length (filter (\<lambda>x. x = CHR ''.'') ''localhost'') \<noteq> 3
   \<and> makeAnonymizer ''cidr'' [] (Some ''localhost'') = Some ''localhost''"
  using cidr_policy [of "[]" "''192''" "''168''" "''1''" "''77''" "''fe80::1''"
                        "''2001''" "''db8''" "''85a3''" "''0:0:8a2e:370:7334''" "''localhost''"]
  by (simp add: numeral_3_eq_3)

section \<open>Policy \<open>hash\<close>\<close>

text \<open>
  Claim C8: under policy \<open>hash\<close>, for every salt and every non-empty address the
  anonymizer yields the first sixteen hexadecimal digits of the SHA-256 digest of the salt
  followed by the address: a function of salt and address alone, of length sixteen
  whatever the length of the address, made of lower-case hexadecimal digits. A null or
  empty address yields null.
\<close>

theorem hash_policy:
  "makeAnonymizer ''hash'' salt None = None
   \<and> makeAnonymizer ''hash'' salt (Some []) = None
   \<and> (addr \<noteq> [] \<longrightarrow>
        makeAnonymizer ''hash'' salt (Some addr) = Some (take 16 (sha256_hex (salt @ addr)))
        \<and> length (the (makeAnonymizer ''hash'' salt (Some addr))) = 16
        \<and> set (the (makeAnonymizer ''hash'' salt (Some addr))) \<subseteq> hex_chars)"
proof -
  have "set (take 16 (sha256_hex (salt @ addr))) \<subseteq> hex_chars"
    using set_take_subset set_sha256_hex by (rule subset_trans)
  then show ?thesis
    by (simp add: makeAnonymizer_def anonymize_hash_def length_sha256_hex)
qed

theorem hash_policy_witness:
  "''203.0.113.9'' \<noteq> []
   \<and> makeAnonymizer ''hash'' ''pepper'' (Some ''203.0.113.9'') = Some ''46962367a1308f44''
   \<and> length (the (makeAnonymizer ''hash'' ''pepper'' (Some ''203.0.113.9''))) = 16"
proof -
  have ne: "''203.0.113.9'' \<noteq> []" by simp
  have d: "take 16 (sha256_hex (''pepper'' @ ''203.0.113.9'')) = ''46962367a1308f44''"
    using sha256_hex_example by simp
  from hash_policy [of "''pepper''" "''203.0.113.9''"] ne
  have "makeAnonymizer ''hash'' ''pepper'' (Some ''203.0.113.9'')
          = Some (take 16 (sha256_hex (''pepper'' @ ''203.0.113.9'')))"
    and l: "length (the (makeAnonymizer ''hash'' ''pepper'' (Some ''203.0.113.9''))) = 16"
    by blast+
  then have "makeAnonymizer ''hash'' ''pepper'' (Some ''203.0.113.9'') = Some ''46962367a1308f44''"
    by (simp only: d)
  with ne l show ?thesis by (intro conjI)
qed

section \<open>The \<open>databaseUrl\<close> guard\<close>

text \<open>
  Claim C10: when the options carry no \<open>databaseUrl\<close> (the guard is
  \<open>!opts.databaseUrl\<close>: the field is absent or the empty string), \<open>enableAnalytics\<close>
  throws the error \<open>enableAnalytics: databaseUrl is required\<close> before any effect: no
  pool, no middleware, no timer. When \<open>databaseUrl\<close> is a non-empty string the guard
  does not throw: whatever the call ends with, it is not that error, and the pool has
  been created, the table ensured and the timer started, in that order. The call can
  still throw afterwards: a dashboard port out of range makes \<open>srv.listen\<close> throw a
  \<open>RangeError\<close> once the pool, the timer and the middleware exist.
\<close>

theorem databaseUrl_required:
  "(databaseUrl opts = None \<or> databaseUrl opts = Some [] \<longrightarrow>
      enableAnalytics opts = ([], Inl (Error ''enableAnalytics: databaseUrl is required'')))
   \<and> (databaseUrl opts = Some u \<and> u \<noteq> [] \<longrightarrow>
      snd (enableAnalytics opts) \<noteq> Inl (Error ''enableAnalytics: databaseUrl is required'')
      \<and> take 3 (fst (enableAnalytics opts))
          = [NewPool u, EnsureTable (table_name opts), SetInterval (timer_interval opts)])
   \<and> (databaseUrl opts = Some u \<and> u \<noteq> [] \<and> dashboard opts = Some d
        \<and> (number_or (port d) 4319 < 0 \<or> 65535 < number_or (port d) 4319) \<longrightarrow>
      enableAnalytics opts
        = ([NewPool u, EnsureTable (table_name opts), SetInterval (timer_interval opts),
            UseMiddleware],
           Inl (RangeError (number_or (port d) 4319))))"
  by (auto simp: enableAnalytics_def Let_def split: option.splits)

theorem databaseUrl_required_witness:
  "databaseUrl (sample_options None None None) = None
   \<and> enableAnalytics (sample_options None None None)
       = ([], Inl (Error ''enableAnalytics: databaseUrl is required''))
   \<and> databaseUrl (sample_options None None (Some [])) = Some []
   \<and> enableAnalytics (sample_options None None (Some []))
       = ([], Inl (Error ''enableAnalytics: databaseUrl is required''))
   \<and> databaseUrl (sample_options None None (Some ''postgres://db'')) = Some ''postgres://db''
   \<and> ''postgres://db'' \<noteq> []
   \<and> snd (enableAnalytics (sample_options None None (Some ''postgres://db'')))
       \<noteq> Inl (Error ''enableAnalytics: databaseUrl is required'')
   \<and> hd (fst (enableAnalytics (sample_options None None (Some ''postgres://db''))))
       = NewPool ''postgres://db''
   \<and> databaseUrl (sample_dashboard (- 1)) = Some ''postgres://db''
   \<and> dashboard (sample_dashboard (- 1)) = Some \<lparr> bind = None, port = Some (- 1) \<rparr>
   \<and> number_or (port \<lparr> bind = None, port = Some (- 1) \<rparr>) 4319 < 0
   \<and> snd (enableAnalytics (sample_dashboard (- 1))) = Inl (RangeError (- 1))"
proof -
  let ?d = "\<lparr> bind = None, port = Some (- 1) \<rparr>"
  have a: "databaseUrl (sample_options None None None) = None"
    and a': "databaseUrl (sample_options None None (Some [])) = Some []"
    and b: "databaseUrl (sample_options None None (Some ''postgres://db'')) = Some ''postgres://db''"
    and c: "''postgres://db'' \<noteq> []"
    and e: "databaseUrl (sample_dashboard (- 1)) = Some ''postgres://db''"
    and f: "dashboard (sample_dashboard (- 1)) = Some ?d"
    and g: "number_or (port ?d) 4319 < 0"
    and g': "number_or (port ?d) 4319 = - 1"
    by (simp_all add: sample_options_def sample_dashboard_def)
  have d: "take 3 xs = y # ys \<Longrightarrow> hd xs = y" for xs ys and y :: effect
    by (cases xs) simp_all
  have 1: "enableAnalytics (sample_options None None None)
       = ([], Inl (Error ''enableAnalytics: databaseUrl is required''))"
    using databaseUrl_required [of "sample_options None None None"] a by blast
  have 2: "enableAnalytics (sample_options None None (Some []))
       = ([], Inl (Error ''enableAnalytics: databaseUrl is required''))"
    using databaseUrl_required [of "sample_options None None (Some [])"] a' by blast
  note t = databaseUrl_required
             [of "sample_options None None (Some ''postgres://db'')" "''postgres://db''"]
  have 3: "snd (enableAnalytics (sample_options None None (Some ''postgres://db'')))
       \<noteq> Inl (Error ''enableAnalytics: databaseUrl is required'')"
    using t b c by blast
  have 4: "hd (fst (enableAnalytics (sample_options None None (Some ''postgres://db''))))
       = NewPool ''postgres://db''"
    using t b c d by blast
  have "enableAnalytics (sample_dashboard (- 1))
        = ([NewPool ''postgres://db'', EnsureTable (table_name (sample_dashboard (- 1))),
            SetInterval (timer_interval (sample_dashboard (- 1))), UseMiddleware],
           Inl (RangeError (number_or (port ?d) 4319)))"
    using databaseUrl_required [of "sample_dashboard (- 1)" "''postgres://db''" ?d] e c f g
    by blast
  then have 5: "snd (enableAnalytics (sample_dashboard (- 1))) = Inl (RangeError (- 1))"
    by (simp add: g')
  from a 1 a' 2 b c 3 4 e f g 5 show ?thesis by (intro conjI)
qed

section \<open>The bucket of the traffic query\<close>

text \<open>
  Claim C2, as stated, fails: the handler of \<open>/api/traffic\<close> has no check of the
  bucket. For \<open>window = "1 hour"\<close> and \<open>bucket = "invalid"\<close> the store receives the
  parameters \<open>["invalid", "1 hour"]\<close>.
\<close>

theorem traffic_bucket_counterexample:
  "traffic_handler echo_store (sample_options None None (Some ''postgres://db''))
       \<lparr> window = Some ''1 hour'', bucket = Some ''invalid'' \<rparr>
     = Json [PText ''invalid'', PText ''1 hour'']"
  by (simp add: traffic_handler_def traffic_params_def echo_store_def respond_def)

text \<open>
  Claim C2, amended: the bucket is not checked against any set of granularities. An
  absent or empty bucket is replaced by \<open>hour\<close>; every other value is handed unchanged
  to the store, as the first bound parameter of a statement whose text does not depend
  on the request; when the store rejects the call, the handler answers with status 500
  and the message.
\<close>

theorem traffic_bucket_passed_through:
  "traffic_handler pool_query opts q
     = respond (pool_query (traffic_sql (table_name opts))
                  [PText (or_default (bucket q) ''hour''), PText (or_default (window q) ''24 hours'')])
   \<and> (bucket q = Some b \<and> b \<noteq> [] \<longrightarrow> hd (traffic_params q) = PText b)
   \<and> (bucket q = None \<or> bucket q = Some [] \<longrightarrow> hd (traffic_params q) = PText ''hour'')
   \<and> (pool_query (traffic_sql (table_name opts)) (traffic_params q) = Inl msg \<longrightarrow>
        traffic_handler pool_query opts q = Status500 msg)"
  by (auto simp: traffic_handler_def traffic_params_def respond_def Let_def)

theorem traffic_bucket_passed_through_witness:
  "bucket \<lparr> window = Some ''1 hour'', bucket = Some ''decade'' \<rparr> = Some ''decade''
   \<and> ''decade'' \<noteq> []
   \<and> hd (traffic_params \<lparr> window = Some ''1 hour'', bucket = Some ''decade'' \<rparr>) = PText ''decade''
   \<and> bucket \<lparr> window = None, bucket = None \<rparr> = None
   \<and> hd (traffic_params \<lparr> window = None, bucket = None \<rparr>) = PText ''hour''
   \<and> failing_store ''unit not recognized''
         (traffic_sql (table_name (sample_options None None None)))
         (traffic_params \<lparr> window = Some ''1 hour'', bucket = Some ''invalid'' \<rparr>)
       = Inl ''unit not recognized''
   \<and> traffic_handler (failing_store ''unit not recognized'') (sample_options None None None)
         \<lparr> window = Some ''1 hour'', bucket = Some ''invalid'' \<rparr>
       = Status500 ''unit not recognized''"
proof -
  have a: "bucket \<lparr> window = Some ''1 hour'', bucket = Some ''decade'' \<rparr> = Some ''decade''"
    and b: "''decade'' \<noteq> []"
    and c: "bucket \<lparr> window = None, bucket = None \<rparr> = None"
    by simp_all
  have d: "failing_store ''unit not recognized''
         (traffic_sql (table_name (sample_options None None None)))
         (traffic_params \<lparr> window = Some ''1 hour'', bucket = Some ''invalid'' \<rparr>)
       = Inl ''unit not recognized''"
    by (simp only: failing_store_def)
  have e: "hd (traffic_params \<lparr> window = Some ''1 hour'', bucket = Some ''decade'' \<rparr>) = PText ''decade''"
    using traffic_bucket_passed_through
            [of _ _ "\<lparr> window = Some ''1 hour'', bucket = Some ''decade'' \<rparr>" "''decade''"] a b
    by blast
  have f: "hd (traffic_params \<lparr> window = None, bucket = None \<rparr>) = PText ''hour''"
    using traffic_bucket_passed_through [of _ _ "\<lparr> window = None, bucket = None \<rparr>"] c
    by blast
  have g: "traffic_handler (failing_store ''unit not recognized'') (sample_options None None None)
         \<lparr> window = Some ''1 hour'', bucket = Some ''invalid'' \<rparr>
       = Status500 ''unit not recognized''"
    using traffic_bucket_passed_through
            [of "failing_store ''unit not recognized''" "sample_options None None None"
                "\<lparr> window = Some ''1 hour'', bucket = Some ''invalid'' \<rparr>" _
                "''unit not recognized''"] d
    by blast
  from a b e c f d g show ?thesis by (intro conjI)
qed

section \<open>Bounds of the splice, the timer, and the batches over a run\<close>

lemma splice_count_le: "splice_count n len \<le> len"
  by (simp add: splice_count_def)

lemma splice_count_bound: "0 \<le> n \<Longrightarrow> int (splice_count n len) \<le> n"
  by (simp add: splice_count_def)

lemma splice_count_all: "int len \<le> n \<Longrightarrow> splice_count n len = len"
  by (simp add: splice_count_def)

lemma timer_drain: "timer (drain opts st) = timer st"
  by (simp add: drain_def Let_def)

lemma timer_step: "timer (step opts st i) = timer st"
  by (cases i)
     (simp_all add: on_finish_def Let_def timer_drain tick_def settle_def stop_def
        split: option.splits list.splits sum.splits)

lemma timer_run: "timer (run opts st ins) = timer st"
  unfolding run_def by (induction ins arbitrary: st) (simp_all add: timer_step)

lemma settle_idle:
  assumes "flush_inv st"
  shows "\<not> draining (settle st r) \<and> pending (settle st r) = []
         \<and> queue (settle st r) = queue st \<and> issued (settle st r) = issued st
         \<and> timer (settle st r) = timer st"
proof (cases "pending st")
  case Nil
  with assms show ?thesis by (simp add: settle_def flush_inv_def)
next
  case (Cons c cs)
  with assms have "cs = []" by (simp add: flush_inv_def)
  with Cons show ?thesis by (simp add: settle_def split: sum.splits)
qed

lemma issued_drain: "\<exists>bs. issued (drain opts st) = issued st @ bs"
  by (simp add: drain_def Let_def)

lemma issued_step: "\<exists>bs. issued (step opts st i) = issued st @ bs"
proof (cases i)
  case (Finish ri)
  have "\<exists>bs. issued (drain opts (st \<lparr> queue := queue st @ [make_event opts ri] \<rparr>))
              = issued (st \<lparr> queue := queue st @ [make_event opts ri] \<rparr>) @ bs"
    by (rule issued_drain)
  with Finish show ?thesis by (simp add: on_finish_def Let_def)
next
  case Tick
  then show ?thesis using issued_drain [of opts st] by (simp add: tick_def split: option.splits)
next
  case (Settled r)
  then show ?thesis by (simp add: settle_def split: list.splits sum.splits)
next
  case Stop
  then show ?thesis by (simp add: stop_def)
qed

lemma issued_run: "\<exists>bs. issued (run opts st ins) = issued st @ bs"
proof (induction ins arbitrary: st)
  case Nil
  show ?case by (simp add: run_def)
next
  case (Cons i ins)
  obtain bs where 1: "issued (step opts st i) = issued st @ bs"
    using issued_step by blast
  obtain cs where 2: "issued (run opts (step opts st i) ins) = issued (step opts st i) @ cs"
    using Cons.IH by blast
  have "run opts st (i # ins) = run opts (step opts st i) ins"
    by (simp add: run_def)
  with 1 2 show ?case by simp
qed

lemma sent_run_prefix: "take (length (sent st)) (sent (run opts st ins)) = sent st"
proof -
  obtain bs where "issued (run opts st ins) = issued st @ bs"
    using issued_run by blast
  then show ?thesis by (simp add: sent_def)
qed

lemma later_batches:
  "drop (length (sent st)) (sent (run opts st ins)) @ queue (run opts st ins)
     = queue st @ pushed opts ins"
proof -
  have "sent (run opts st ins) @ queue (run opts st ins) = sent st @ queue st @ pushed opts ins"
    by (rule run_conserve)
  moreover have "sent (run opts st ins)
      = sent st @ drop (length (sent st)) (sent (run opts st ins))"
    using sent_run_prefix [of st opts ins] by (metis append_take_drop_id)
  ultimately have "sent st @ drop (length (sent st)) (sent (run opts st ins)) @ queue (run opts st ins)
      = sent st @ queue st @ pushed opts ins"
    by (metis append.assoc)
  then show ?thesis by simp
qed

text \<open>The definitions unfolded to run the model on a concrete sequence of inputs.\<close>

lemmas eval_run = run_def on_finish_def Let_def drain_def tick_def settle_def stop_def
  initial_state_def batchSize_def timer_interval_def sample_options_def sample_request_def
  splice_count_def

section \<open>One flush\<close>

text \<open>
  Claim C6: a call of \<open>drain\<close> that finds the flag set or the queue empty changes
  nothing and writes nothing to the store. Otherwise it makes exactly one insert call
  \<open>b\<close>, whose records are a prefix of the queue, removed from it; they are at most
  \<open>batchSize\<close> (for a batch size that is not negative), and all of the queue when the
  queue holds no more than \<open>batchSize\<close> records. The call carries, for each record in
  order, its eleven fields as parameters, and the text of one \<open>INSERT\<close> into the table
  with a row tuple of eleven placeholders for each record, numbered on from \<open>$1\<close>.
\<close>

theorem drain_batch:
  "(draining st \<or> queue st = [] \<longrightarrow> drain opts st = st)
   \<and> (\<not> draining st \<and> queue st \<noteq> [] \<and> b = last (issued (drain opts st)) \<longrightarrow>
        issued (drain opts st) = issued st @ [b]
        \<and> queue st = items b @ queue (drain opts st)
        \<and> (0 \<le> batchSize opts \<longrightarrow> int (length (items b)) \<le> batchSize opts)
        \<and> (int (length (queue st)) \<le> batchSize opts \<longrightarrow>
              items b = queue st \<and> queue (drain opts st) = [])
        \<and> params b
            = concat (map (\<lambda>e. [PText (event_type e), PText (occurred_at e),
                                   text_param (user_id e), text_param (route e),
                                   PText (http_method e), PInt (status e),
                                   PInt (latency_ms e), text_param (ip_cidr e),
                                   text_param (ip_full e), text_param (user_agent e),
                                   (case meta e of None \<Rightarrow> PNull | Some m \<Rightarrow> PJson m)])
                        (items b))
        \<and> length (params b) = 11 * length (items b)
        \<and> sql b
            = ''INSERT INTO '' @ table_name opts
              @ '' (event_type, occurred_at, user_id, route, method, status, latency_ms, ip_cidr, ip_full, user_agent, meta)''
              @ '' VALUES ''
              @ join_js '',''
                  (map (\<lambda>k. ''($'' @ show_nat (11 * k + 1) @ '',$'' @ show_nat (11 * k + 2)
                             @ '',$'' @ show_nat (11 * k + 3) @ '',$'' @ show_nat (11 * k + 4)
                             @ '',$'' @ show_nat (11 * k + 5) @ '',$'' @ show_nat (11 * k + 6)
                             @ '',$'' @ show_nat (11 * k + 7) @ '',$'' @ show_nat (11 * k + 8)
                             @ '',$'' @ show_nat (11 * k + 9) @ '',$'' @ show_nat (11 * k + 10)
                             @ '',$'' @ show_nat (11 * k + 11) @ '')'')
                       [0..<length (items b)]))"
proof (cases "draining st \<or> queue st = []")
  case True
  then show ?thesis by (auto simp: drain_busy drain_empty)
next
  case False
  let ?n = "splice_count (batchSize opts) (length (queue st))"
  let ?its = "take ?n (queue st)"
  let ?b = "build_insert (table_name opts) ?its"
  have d: "drain opts st =
     st \<lparr> queue := drop ?n (queue st), draining := True,
          pending := pending st @ [?b], issued := issued st @ [?b] \<rparr>"
    using False by (simp add: drain_start)
  have l: "last (issued (drain opts st)) = ?b"
    by (simp add: d)
  have i: "items ?b = ?its"
    by (rule items_build_insert)
  have 1: "issued (drain opts st) = issued st @ [?b]"
    by (simp add: d)
  have 2: "queue st = items ?b @ queue (drain opts st)"
    by (simp add: d i)
  have 3: "0 \<le> batchSize opts \<longrightarrow> int (length (items ?b)) \<le> batchSize opts"
    using splice_count_bound [of "batchSize opts" "length (queue st)"]
          splice_count_le [of "batchSize opts" "length (queue st)"]
    by (simp add: i min_absorb2)
  have 4: "int (length (queue st)) \<le> batchSize opts \<longrightarrow>
             items ?b = queue st \<and> queue (drain opts st) = []"
    by (simp add: d i items_build_insert splice_count_all)
  have p: "params ?b = concat (map row_params (items ?b))"
    by (simp add: build_insert_eq)
  have s0: "sql ?b = insert_sql (table_name opts)
                   (map (\<lambda>k. row_placeholders (1 + 11 * k)) [0..<length (items ?b)])"
    by (simp add: build_insert_eq)
  have rp: "row_params = (\<lambda>e. [PText (event_type e), PText (occurred_at e),
                                   text_param (user_id e), text_param (route e),
                                   PText (http_method e), PInt (status e),
                                   PInt (latency_ms e), text_param (ip_cidr e),
                                   text_param (ip_full e), text_param (user_agent e),
                                   (case meta e of None \<Rightarrow> PNull | Some m \<Rightarrow> PJson m)])"
    by (simp add: fun_eq_iff row_params_def)
  have 5: "params ?b
            = concat (map (\<lambda>e. [PText (event_type e), PText (occurred_at e),
                                   text_param (user_id e), text_param (route e),
                                   PText (http_method e), PInt (status e),
                                   PInt (latency_ms e), text_param (ip_cidr e),
                                   text_param (ip_full e), text_param (user_agent e),
                                   (case meta e of None \<Rightarrow> PNull | Some m \<Rightarrow> PJson m)])
                        (items ?b))"
    unfolding p rp by (rule refl)
  have 6: "length (params ?b) = 11 * length (items ?b)"
    by (simp only: p length_concat_row_params)
  have 7: "sql ?b
            = ''INSERT INTO '' @ table_name opts
              @ '' (event_type, occurred_at, user_id, route, method, status, latency_ms, ip_cidr, ip_full, user_agent, meta)''
              @ '' VALUES ''
              @ join_js '',''
                  (map (\<lambda>k. ''($'' @ show_nat (11 * k + 1) @ '',$'' @ show_nat (11 * k + 2)
                             @ '',$'' @ show_nat (11 * k + 3) @ '',$'' @ show_nat (11 * k + 4)
                             @ '',$'' @ show_nat (11 * k + 5) @ '',$'' @ show_nat (11 * k + 6)
                             @ '',$'' @ show_nat (11 * k + 7) @ '',$'' @ show_nat (11 * k + 8)
                             @ '',$'' @ show_nat (11 * k + 9) @ '',$'' @ show_nat (11 * k + 10)
                             @ '',$'' @ show_nat (11 * k + 11) @ '')'')
                       [0..<length (items ?b)])"
    unfolding s0 insert_sql_def row_placeholders_at by (rule refl)
  have main: "issued (drain opts st) = issued st @ [b]
        \<and> queue st = items b @ queue (drain opts st)
        \<and> (0 \<le> batchSize opts \<longrightarrow> int (length (items b)) \<le> batchSize opts)
        \<and> (int (length (queue st)) \<le> batchSize opts \<longrightarrow>
              items b = queue st \<and> queue (drain opts st) = [])
        \<and> params b
            = concat (map (\<lambda>e. [PText (event_type e), PText (occurred_at e),
                                   text_param (user_id e), text_param (route e),
                                   PText (http_method e), PInt (status e),
                                   PInt (latency_ms e), text_param (ip_cidr e),
                                   text_param (ip_full e), text_param (user_agent e),
                                   (case meta e of None \<Rightarrow> PNull | Some m \<Rightarrow> PJson m)])
                        (items b))
        \<and> length (params b) = 11 * length (items b)
        \<and> sql b
            = ''INSERT INTO '' @ table_name opts
              @ '' (event_type, occurred_at, user_id, route, method, status, latency_ms, ip_cidr, ip_full, user_agent, meta)''
              @ '' VALUES ''
              @ join_js '',''
                  (map (\<lambda>k. ''($'' @ show_nat (11 * k + 1) @ '',$'' @ show_nat (11 * k + 2)
                             @ '',$'' @ show_nat (11 * k + 3) @ '',$'' @ show_nat (11 * k + 4)
                             @ '',$'' @ show_nat (11 * k + 5) @ '',$'' @ show_nat (11 * k + 6)
                             @ '',$'' @ show_nat (11 * k + 7) @ '',$'' @ show_nat (11 * k + 8)
                             @ '',$'' @ show_nat (11 * k + 9) @ '',$'' @ show_nat (11 * k + 10)
                             @ '',$'' @ show_nat (11 * k + 11) @ '')'')
                       [0..<length (items b)])"
    if "b = last (issued (drain opts st))"
  proof -
    have b: "b = ?b" using that by (simp only: l)
    show ?thesis unfolding b using 1 2 3 4 5 6 7 by (intro conjI)
  qed
  have A: "draining st \<or> queue st = [] \<longrightarrow> drain opts st = st"
    using False by simp
  show ?thesis
  proof (rule conjI [OF A], intro impI, elim conjE)
    assume "b = last (issued (drain opts st))"
    then show "issued (drain opts st) = issued st @ [b]
        \<and> queue st = items b @ queue (drain opts st)
        \<and> (0 \<le> batchSize opts \<longrightarrow> int (length (items b)) \<le> batchSize opts)
        \<and> (int (length (queue st)) \<le> batchSize opts \<longrightarrow>
              items b = queue st \<and> queue (drain opts st) = [])
        \<and> params b
            = concat (map (\<lambda>e. [PText (event_type e), PText (occurred_at e),
                                   text_param (user_id e), text_param (route e),
                                   PText (http_method e), PInt (status e),
                                   PInt (latency_ms e), text_param (ip_cidr e),
                                   text_param (ip_full e), text_param (user_agent e),
                                   (case meta e of None \<Rightarrow> PNull | Some m \<Rightarrow> PJson m)])
                        (items b))
        \<and> length (params b) = 11 * length (items b)
        \<and> sql b
            = ''INSERT INTO '' @ table_name opts
              @ '' (event_type, occurred_at, user_id, route, method, status, latency_ms, ip_cidr, ip_full, user_agent, meta)''
              @ '' VALUES ''
              @ join_js '',''
                  (map (\<lambda>k. ''($'' @ show_nat (11 * k + 1) @ '',$'' @ show_nat (11 * k + 2)
                             @ '',$'' @ show_nat (11 * k + 3) @ '',$'' @ show_nat (11 * k + 4)
                             @ '',$'' @ show_nat (11 * k + 5) @ '',$'' @ show_nat (11 * k + 6)
                             @ '',$'' @ show_nat (11 * k + 7) @ '',$'' @ show_nat (11 * k + 8)
                             @ '',$'' @ show_nat (11 * k + 9) @ '',$'' @ show_nat (11 * k + 10)
                             @ '',$'' @ show_nat (11 * k + 11) @ '')'')
                       [0..<length (items b)])"
      by (rule main)
  qed
qed

theorem drain_batch_witness:
  "queue (initial_state (sample_options None (Some 2) None)) = []
   \<and> drain (sample_options None (Some 2) None) (initial_state (sample_options None (Some 2) None))
       = initial_state (sample_options None (Some 2) None)
   \<and> \<not> draining (sample_state (sample_options None (Some 2) None) [''10.0.1.1'', ''10.0.2.2'', ''10.0.3.3''])
   \<and> queue (sample_state (sample_options None (Some 2) None) [''10.0.1.1'', ''10.0.2.2'', ''10.0.3.3'']) \<noteq> []
   \<and> 0 \<le> batchSize (sample_options None (Some 2) None)
   \<and> int (length (items (last (issued (drain (sample_options None (Some 2) None)
          (sample_state (sample_options None (Some 2) None) [''10.0.1.1'', ''10.0.2.2'', ''10.0.3.3'']))))))
       \<le> batchSize (sample_options None (Some 2) None)
   \<and> int (length (queue (sample_state (sample_options None None None) [''10.0.0.1'', ''10.0.0.2''])))
       \<le> batchSize (sample_options None None None)
   \<and> \<not> draining (sample_state (sample_options None None None) [''10.0.0.1'', ''10.0.0.2''])
   \<and> queue (sample_state (sample_options None None None) [''10.0.0.1'', ''10.0.0.2'']) \<noteq> []
   \<and> queue (drain (sample_options None None None)
               (sample_state (sample_options None None None) [''10.0.0.1'', ''10.0.0.2''])) = []
   \<and> sql (last (issued (drain (sample_options None (Some 2) None)
          (sample_state (sample_options None (Some 2) None) [''10.0.1.1'', ''10.0.2.2'', ''10.0.3.3'']))))
       = ''INSERT INTO web_analytics_events (event_type, occurred_at, user_id, route, method, status, latency_ms, ip_cidr, ip_full, user_agent, meta) VALUES ($1,$2,$3,$4,$5,$6,$7,$8,$9,$10,$11),($12,$13,$14,$15,$16,$17,$18,$19,$20,$21,$22)''
   \<and> params (last (issued (drain (sample_options None (Some 2) None)
          (sample_state (sample_options None (Some 2) None) [''10.0.1.1'', ''10.0.2.2'', ''10.0.3.3'']))))
       = [PText ''request'', PText ''2025-01-01T00:00:00.000Z'', PNull, PText ''/'', PText ''GET'',
          PInt 200, PInt 3, PText ''10.0.1.0'', PNull, PNull,
          PJson \<lparr> url = Some ''/'', ref = None, hostname = None \<rparr>,
          PText ''request'', PText ''2025-01-01T00:00:00.000Z'', PNull, PText ''/'', PText ''GET'',
          PInt 200, PInt 3, PText ''10.0.2.0'', PNull, PNull,
          PJson \<lparr> url = Some ''/'', ref = None, hostname = None \<rparr>]"
proof -
  let ?o2 = "sample_options None (Some 2) None"
  let ?s3 = "sample_state ?o2 [''10.0.1.1'', ''10.0.2.2'', ''10.0.3.3'']"
  let ?o = "sample_options None None None"
  let ?s2 = "sample_state ?o [''10.0.0.1'', ''10.0.0.2'']"
  have h1: "queue (initial_state ?o2) = []"
    by (simp add: initial_state_def)
  have h2: "\<not> draining ?s3" and h3: "queue ?s3 \<noteq> []"
    by (simp_all add: sample_state_def initial_state_def)
  have h4: "0 \<le> batchSize ?o2"
    by (simp add: batchSize_def sample_options_def)
  have h5: "int (length (queue ?s2)) \<le> batchSize ?o"
    by (simp add: sample_state_def initial_state_def batchSize_def sample_options_def)
  have h6: "\<not> draining ?s2" and h7: "queue ?s2 \<noteq> []"
    by (simp_all add: sample_state_def initial_state_def)
  have c1: "drain ?o2 (initial_state ?o2) = initial_state ?o2"
    using drain_batch [of "initial_state ?o2" ?o2, THEN conjunct1] h1 by blast
  have c2: "int (length (items (last (issued (drain ?o2 ?s3))))) \<le> batchSize ?o2"
    using drain_batch [of ?s3 ?o2 "last (issued (drain ?o2 ?s3))", THEN conjunct2] h2 h3 h4
    by blast
  have c3: "queue (drain ?o ?s2) = []"
    using drain_batch [of ?s2 ?o "last (issued (drain ?o ?s2))", THEN conjunct2] h5 h6 h7
    by blast
  have c4: "sql (last (issued (drain ?o2 ?s3)))
       = ''INSERT INTO web_analytics_events (event_type, occurred_at, user_id, route, method, status, latency_ms, ip_cidr, ip_full, user_agent, meta) VALUES ($1,$2,$3,$4,$5,$6,$7,$8,$9,$10,$11),($12,$13,$14,$15,$16,$17,$18,$19,$20,$21,$22)''"
    by code_simp
  have c5: "params (last (issued (drain ?o2 ?s3)))
       = [PText ''request'', PText ''2025-01-01T00:00:00.000Z'', PNull, PText ''/'', PText ''GET'',
          PInt 200, PInt 3, PText ''10.0.1.0'', PNull, PNull,
          PJson \<lparr> url = Some ''/'', ref = None, hostname = None \<rparr>,
          PText ''request'', PText ''2025-01-01T00:00:00.000Z'', PNull, PText ''/'', PText ''GET'',
          PInt 200, PInt 3, PText ''10.0.2.0'', PNull, PNull,
          PJson \<lparr> url = Some ''/'', ref = None, hostname = None \<rparr>]"
    by code_simp
  from h1 c1 h2 h3 h4 c2 h5 h6 h7 c3 c4 c5 show ?thesis by (intro conjI)
qed

section \<open>At most one flush in flight\<close>

text \<open>
  Claim C4: in every state that a running instance can reach, at most one insert awaits
  its result, and the flag \<open>draining\<close> is set exactly then. While it is set, a timer
  tick changes nothing and a captured request only appends its record to the queue: the
  trigger is dropped. When the insert settles, with success or with failure \<open>r\<close>, the
  flag is cleared, and the next tick starts a flush if the queue is not empty. The
  batches handed to the store so far, followed by the queue, are the captured records in
  their order of arrival: no record is in two batches.
\<close>

theorem one_flush_in_flight:
  assumes "st = run opts (initial_state opts) ins"
  shows "length (pending st) \<le> 1
     \<and> (draining st \<longleftrightarrow> pending st \<noteq> [])
     \<and> (draining st \<longrightarrow> tick opts st = st)
     \<and> (draining st \<and> sampled ri \<longrightarrow>
           on_finish opts st ri = st \<lparr> queue := queue st @ [make_event opts ri] \<rparr>)
     \<and> \<not> draining (settle st r) \<and> pending (settle st r) = []
     \<and> (queue st \<noteq> [] \<longrightarrow>
           draining (tick opts (settle st r))
           \<and> length (issued (tick opts (settle st r))) = Suc (length (issued st)))
     \<and> sent st @ queue st = pushed opts ins"
proof -
  have inv: "flush_inv st"
    unfolding assms by (rule flush_inv_run) (rule flush_inv_initial)
  have 1: "length (pending st) \<le> 1" and 2: "draining st \<longleftrightarrow> pending st \<noteq> []"
    and t: "timer st \<noteq> None"
    using inv by (simp_all add: flush_inv_def)
  have 3: "draining st \<longrightarrow> tick opts st = st"
    by (simp add: tick_def drain_busy split: option.splits)
  have 4: "draining st \<and> sampled ri \<longrightarrow>
           on_finish opts st ri = st \<lparr> queue := queue st @ [make_event opts ri] \<rparr>"
    by (simp add: on_finish_def Let_def drain_busy)
  note s = settle_idle [OF inv, of r]
  have 5: "\<not> draining (settle st r)" and 8: "pending (settle st r) = []"
    using s by simp_all
  have 6: "queue st \<noteq> [] \<longrightarrow>
           draining (tick opts (settle st r))
           \<and> length (issued (tick opts (settle st r))) = Suc (length (issued st))"
  proof
    assume q: "queue st \<noteq> []"
    obtain ms where ms: "timer (settle st r) = Some ms"
      using s t by auto
    have "tick opts (settle st r) = drain opts (settle st r)"
      by (simp add: tick_def ms)
    moreover have "\<not> draining (settle st r)" "queue (settle st r) \<noteq> []"
      using s q by simp_all
    ultimately show "draining (tick opts (settle st r))
           \<and> length (issued (tick opts (settle st r))) = Suc (length (issued st))"
      using s by (simp add: drain_start)
  qed
  have "sent st @ queue st = sent (initial_state opts) @ queue (initial_state opts) @ pushed opts ins"
    unfolding assms by (rule run_conserve)
  then have 7: "sent st @ queue st = pushed opts ins"
    by (simp add: sent_def initial_state_def)
  from 1 2 3 4 5 8 6 7 show ?thesis by (intro conjI)
qed

theorem one_flush_in_flight_witness:
  "draining (run (sample_options None (Some 2) None) (initial_state (sample_options None (Some 2) None))
       [Finish (sample_request ''10.0.0.1''), Finish (sample_request ''10.0.0.2''),
        Finish (sample_request ''10.0.0.3'')])
   \<and> queue (run (sample_options None (Some 2) None) (initial_state (sample_options None (Some 2) None))
       [Finish (sample_request ''10.0.0.1''), Finish (sample_request ''10.0.0.2''),
        Finish (sample_request ''10.0.0.3'')]) \<noteq> []
   \<and> sampled (sample_request ''10.0.0.4'')
   \<and> tick (sample_options None (Some 2) None)
        (run (sample_options None (Some 2) None) (initial_state (sample_options None (Some 2) None))
          [Finish (sample_request ''10.0.0.1''), Finish (sample_request ''10.0.0.2''),
           Finish (sample_request ''10.0.0.3'')])
       = run (sample_options None (Some 2) None) (initial_state (sample_options None (Some 2) None))
          [Finish (sample_request ''10.0.0.1''), Finish (sample_request ''10.0.0.2''),
           Finish (sample_request ''10.0.0.3'')]
   \<and> length (issued (on_finish (sample_options None (Some 2) None)
        (run (sample_options None (Some 2) None) (initial_state (sample_options None (Some 2) None))
          [Finish (sample_request ''10.0.0.1''), Finish (sample_request ''10.0.0.2''),
           Finish (sample_request ''10.0.0.3'')])
        (sample_request ''10.0.0.4''))) = 1
   \<and> length (issued (tick (sample_options None (Some 2) None)
        (settle (run (sample_options None (Some 2) None) (initial_state (sample_options None (Some 2) None))
          [Finish (sample_request ''10.0.0.1''), Finish (sample_request ''10.0.0.2''),
           Finish (sample_request ''10.0.0.3'')]) (Inr ())))) = 2"
proof -
  let ?o = "sample_options None (Some 2) None"
  let ?st = "run ?o (initial_state ?o)
       [Finish (sample_request ''10.0.0.1''), Finish (sample_request ''10.0.0.2''),
        Finish (sample_request ''10.0.0.3'')]"
  have h1: "draining ?st" and h2: "queue ?st \<noteq> []" and h3: "sampled (sample_request ''10.0.0.4'')"
    and n: "length (issued ?st) = 1"
    by (simp_all add: eval_run)
  note t = one_flush_in_flight [OF refl, of ?o _ "sample_request ''10.0.0.4''" "Inr ()"]
  have c1: "tick ?o ?st = ?st"
    using t h1 by blast
  have "on_finish ?o ?st (sample_request ''10.0.0.4'')
          = ?st \<lparr> queue := queue ?st @ [make_event ?o (sample_request ''10.0.0.4'')] \<rparr>"
    using t h1 h3 by blast
  then have c2: "length (issued (on_finish ?o ?st (sample_request ''10.0.0.4''))) = 1"
    using n by simp
  have "length (issued (tick ?o (settle ?st (Inr ())))) = Suc (length (issued ?st))"
    using t h2 by blast
  then have c3: "length (issued (tick ?o (settle ?st (Inr ())))) = 2"
    using n by simp
  from h1 h2 h3 c1 c2 c3 show ?thesis by (intro conjI)
qed

section \<open>A failed insert\<close>

text \<open>
  Claim C5: when the insert of a flush fails with message \<open>msg\<close>, the queue is left as
  it is (the batch is not put back), no further call is made to the store (no retry, no
  other destination), one line is logged, and the flag is cleared. The instance goes on:
  for every later sequence of inputs, the batches sent before stay as they were, and the
  batches sent afterwards together with the queue are exactly the records that were
  queued at the failure followed by the records captured since, so the failed batch is
  never sent again.
\<close>

theorem failed_insert_dropped:
  assumes "st = run opts (initial_state opts) ins" and "draining st"
  shows "queue (settle st (Inl msg)) = queue st
     \<and> issued (settle st (Inl msg)) = issued st
     \<and> pending (settle st (Inl msg)) = []
     \<and> errlog (settle st (Inl msg)) = errlog st @ [''[analytics] batch insert failed: '' @ msg]
     \<and> \<not> draining (settle st (Inl msg))
     \<and> take (length (sent st)) (sent (run opts (settle st (Inl msg)) later)) = sent st
     \<and> drop (length (sent st)) (sent (run opts (settle st (Inl msg)) later))
          @ queue (run opts (settle st (Inl msg)) later)
        = queue st @ pushed opts later"
proof -
  let ?st' = "settle st (Inl msg)"
  have inv: "flush_inv st"
    unfolding assms(1) by (rule flush_inv_run) (rule flush_inv_initial)
  note s = settle_idle [OF inv, of "Inl msg"]
  have 1: "queue ?st' = queue st" and 2: "issued ?st' = issued st"
    and 3: "pending ?st' = []" and 5: "\<not> draining ?st'"
    using s by simp_all
  obtain c cs where "pending st = c # cs"
    using inv assms(2) by (cases "pending st") (simp_all add: flush_inv_def)
  then have 4: "errlog ?st' = errlog st @ [''[analytics] batch insert failed: '' @ msg]"
    by (simp add: settle_def)
  have e: "sent ?st' = sent st"
    by (simp add: sent_def 2)
  have 6: "take (length (sent st)) (sent (run opts ?st' later)) = sent st"
    using sent_run_prefix [of ?st' opts later] by (simp add: e)
  have 7: "drop (length (sent st)) (sent (run opts ?st' later)) @ queue (run opts ?st' later)
        = queue st @ pushed opts later"
    using later_batches [of ?st' opts later] by (simp add: e 1)
  from 1 2 3 4 5 6 7 show ?thesis by (intro conjI)
qed

theorem failed_insert_dropped_witness:
  "draining (run (sample_options None None None) (initial_state (sample_options None None None))
              [Finish (sample_request ''10.0.0.1''), Tick])
   \<and> errlog (settle (run (sample_options None None None) (initial_state (sample_options None None None))
                        [Finish (sample_request ''10.0.0.1''), Tick]) (Inl ''connection refused''))
       = [''[analytics] batch insert failed: connection refused'']
   \<and> queue (settle (run (sample_options None None None) (initial_state (sample_options None None None))
                        [Finish (sample_request ''10.0.0.1''), Tick]) (Inl ''connection refused''))
       = []
   \<and> \<not> draining (settle (run (sample_options None None None) (initial_state (sample_options None None None))
                        [Finish (sample_request ''10.0.0.1''), Tick]) (Inl ''connection refused''))"
proof -
  let ?o = "sample_options None None None"
  let ?st = "run ?o (initial_state ?o) [Finish (sample_request ''10.0.0.1''), Tick]"
  have h: "draining ?st" and q: "queue ?st = []" and l: "errlog ?st = []"
    by (simp_all add: eval_run)
  note t = failed_insert_dropped [OF refl h, of "''connection refused''" "[]"]
  from h t q l show ?thesis by simp
qed

section \<open>\<open>stop\<close> and the timer\<close>

text \<open>
  Claim C3, as stated, fails: \<open>stop\<close> does not clear the interval timer. After one
  captured request and \<open>stop\<close> nothing has been sent; the next tick of the timer then
  starts a flush of that record.
\<close>

theorem stop_counterexample:
  "issued (run (sample_options None None (Some ''postgres://db''))
               (initial_state (sample_options None None (Some ''postgres://db'')))
               [Finish (sample_request ''10.0.0.1''), Stop]) = []
   \<and> issued (run (sample_options None None (Some ''postgres://db''))
               (initial_state (sample_options None None (Some ''postgres://db'')))
               [Finish (sample_request ''10.0.0.1''), Stop, Tick])
       = [build_insert ''web_analytics_events''
            [make_event (sample_options None None (Some ''postgres://db''))
                        (sample_request ''10.0.0.1'')]]"
  by (simp add: eval_run table_name_def)

text \<open>
  Claim C3, amended: \<open>stop\<close> only ends the connection pool. It leaves the timer, the
  queue and the flag as they are and performs no flush. Over every run of an instance,
  with or without \<open>stop\<close>, the timer stays armed and a tick calls \<open>drain\<close>; a tick
  after \<open>stop\<close> starts a flush whenever none is in flight and the queue is not empty.
\<close>

theorem stop_leaves_timer:
  "timer (stop st) = timer st
   \<and> queue (stop st) = queue st
   \<and> issued (stop st) = issued st
   \<and> pending (stop st) = pending st
   \<and> draining (stop st) = draining st
   \<and> pool_ended (stop st)
   \<and> timer (run opts (initial_state opts) ins) = Some (timer_interval opts)
   \<and> tick opts (run opts (initial_state opts) ins) = drain opts (run opts (initial_state opts) ins)
   \<and> (timer st \<noteq> None \<and> \<not> draining st \<and> queue st \<noteq> [] \<longrightarrow>
        draining (tick opts (stop st))
        \<and> length (issued (tick opts (stop st))) = Suc (length (issued st)))"
proof -
  have t: "timer (run opts (initial_state opts) ins) = Some (timer_interval opts)"
    by (simp add: timer_run initial_state_def)
  have d: "tick opts (run opts (initial_state opts) ins) = drain opts (run opts (initial_state opts) ins)"
    by (simp add: tick_def t)
  have s: "timer st \<noteq> None \<and> \<not> draining st \<and> queue st \<noteq> [] \<longrightarrow>
        draining (tick opts (stop st))
        \<and> length (issued (tick opts (stop st))) = Suc (length (issued st))"
    by (auto simp: tick_def stop_def drain_def Let_def)
  have f: "timer (stop st) = timer st" "queue (stop st) = queue st" "issued (stop st) = issued st"
    "pending (stop st) = pending st" "draining (stop st) = draining st" "pool_ended (stop st)"
    by (simp_all add: stop_def)
  from f t d s show ?thesis by (intro conjI)
qed

theorem stop_leaves_timer_witness:
  "timer (sample_state (sample_options None None None) [''10.0.0.1'']) \<noteq> None
   \<and> \<not> draining (sample_state (sample_options None None None) [''10.0.0.1''])
   \<and> queue (sample_state (sample_options None None None) [''10.0.0.1'']) \<noteq> []
   \<and> draining (tick (sample_options None None None)
                  (stop (sample_state (sample_options None None None) [''10.0.0.1''])))
   \<and> length (issued (tick (sample_options None None None)
                  (stop (sample_state (sample_options None None None) [''10.0.0.1''])))) = 1"
proof -
  let ?o = "sample_options None None None"
  let ?st = "sample_state ?o [''10.0.0.1'']"
  have h1: "timer ?st \<noteq> None" and h2: "\<not> draining ?st" and h3: "queue ?st \<noteq> []"
    and n: "length (issued ?st) = 0"
    by (simp_all add: sample_state_def initial_state_def)
  note t = stop_leaves_timer [of ?st ?o "[]"]
  have c1: "draining (tick ?o (stop ?st))"
    using t h1 h2 h3 by blast
  have "length (issued (tick ?o (stop ?st))) = Suc (length (issued ?st))"
    using t h1 h2 h3 by blast
  then have c2: "length (issued (tick ?o (stop ?st))) = 1"
    using n by simp
  from h1 h2 h3 c1 c2 show ?thesis by (intro conjI)
qed

section \<open>The top-routes query\<close>















end
